theory Spec2Isabelle
  imports Complex_Main "HOL-Library.Word"
begin

section \<open>Strings\<close>

text \<open>
  A JavaScript string is modelled as a \<^typ>\<open>string\<close>; a \<^typ>\<open>char\<close> stands for a
  code unit below 256.  In that range \<open>String.prototype.trim\<close> removes the code units
  9 to 13, 32 and 160 from both ends, and \<open>toLowerCase\<close> maps \<open>A\<close>..\<open>Z\<close> and the
  Latin-1 capitals 192..222 (without 215) to the code unit 32 above.
\<close>

definition is_ws :: "char \<Rightarrow> bool" where
  "is_ws c = (of_char c \<in> {9, 10, 11, 12, 13, 32, 160 :: nat})"

definition trim :: "string \<Rightarrow> string" where
  "trim s = rev (dropWhile is_ws (rev (dropWhile is_ws s)))"

text \<open>\<open>s.split(c)\<close> for a one-character separator: never the empty array.\<close>

fun split_on :: "char \<Rightarrow> string \<Rightarrow> string list" where
  "split_on c [] = [[]]"
| "split_on c (x # xs) =
     (if x = c then [] # split_on c xs
      else (case split_on c xs of
              [] \<Rightarrow> [[x]]
            | y # ys \<Rightarrow> (x # y) # ys))"

definition lower_char :: "char \<Rightarrow> char" where
  "lower_char c =
     (let n = (of_char c :: nat)
      in if (65 \<le> n \<and> n \<le> 90) \<or> (192 \<le> n \<and> n \<le> 222 \<and> n \<noteq> 215)
         then char_of (n + 32) else c)"

definition toLowerCase :: "string \<Rightarrow> string" where
  "toLowerCase s = map lower_char s"

definition digit_char :: "nat \<Rightarrow> char" where
  "digit_char d = char_of (48 + d)"

text \<open>The decimal rendering of a count inside a template literal.\<close>

fun show_nat :: "nat \<Rightarrow> string" where
  "show_nat n = (if n < 10 then [digit_char n] else show_nat (n div 10) @ [digit_char (n mod 10)])"

declare show_nat.simps [simp del]

section \<open>Errors\<close>

text \<open>
  An \<open>Error\<close> object is a value of \<open>err\<close>.  The constructor keeps where the error was
  made; \<open>message\<close> is its \<open>.message\<close>.  \<open>UnhandledRejection\<close> is the error of a rejected
  promise that nothing awaits or catches.  \<open>AddressError e\<close> and \<open>ProcessingError e\<close> are
  the errors that the two \<open>catch\<close> blocks of \<open>getWalletAddressFromSeed\<close> and
  \<open>processWalletData\<close> build from the message of the error \<open>e\<close> they caught.
\<close>

datatype err =
    TypeError string
  | External string
  | UnsupportedVersion
  | InvalidSeedLength
  | AddressError err
  | ProcessingError err
  | Mismatch string nat nat
  | UnhandledRejection string

fun message :: "err \<Rightarrow> string" where
  "message (TypeError s) = s"
| "message (External s) = s"
| "message UnsupportedVersion = ''Unsupported wallet version''"
| "message InvalidSeedLength = ''Invalid seed phrase length - must be 24 words''"
| "message (AddressError e) = ''Error generating wallet address: '' @ message e"
| "message (ProcessingError e) = ''Error processing wallet data: '' @ message e"
| "message (Mismatch what a b) =
     ''Mismatch between '' @ what @ '' ('' @ show_nat a @ '') and query ('' @ show_nat b @ '') count''"
| "message (UnhandledRejection s) = s"

section \<open>Wallet derivation\<close>

text \<open>
  The packages \<open>@ton/crypto\<close> and \<open>@ton/ton\<close> are not part of the repository; what the
  code uses of them is a parameter of the model.  \<open>mnemonicToWalletKey\<close> and the
  \<open>create\<close> functions of the three contract classes may throw (\<open>Inl\<close> of the
  message of what they throw, which becomes an \<open>External\<close> error); both callers catch it.
\<close>

type_synonym byte = "8 word"

record keyPair =
  publicKey :: "byte list"
  secretKey :: "byte list"

datatype contract = WalletContractV3R2 | WalletContractV4 | WalletContractV5R1

record createArgs =
  workchain :: int
  createPublicKey :: "byte list"
  walletId :: int

record addressFormat =
  urlSafe :: bool
  bounceable :: bool

record 'c ton =
  mnemonicToWalletKey :: "string list \<Rightarrow> string + keyPair"
  create :: "contract \<Rightarrow> createArgs \<Rightarrow> string + 'c"
  addressToString :: "'c \<Rightarrow> addressFormat \<Rightarrow> string"

definition external :: "string + 'a \<Rightarrow> err + 'a" where
  "external r = (case r of Inl msg \<Rightarrow> Inl (External msg) | Inr x \<Rightarrow> Inr x)"

definition DEFAULT_WALLET_ID :: int where
  "DEFAULT_WALLET_ID = 698983191"

text \<open>
  The body of the \<open>try\<close> block of \<open>getWalletAddressFromSeed\<close>.  The version is a string
  or \<open>null\<close> (\<open>main\<close> passes \<open>null\<close> on the PAWS platform); \<open>null.toLowerCase()\<close> is a
  \<open>TypeError\<close>, raised after the key pair has been derived.
\<close>

definition getWalletAddressFromSeed_try ::
  "'c ton \<Rightarrow> string list \<Rightarrow> string option \<Rightarrow> err + string" where
  "getWalletAddressFromSeed_try lib mnemonic version =
     (case external (mnemonicToWalletKey lib mnemonic) of
        Inl e \<Rightarrow> Inl e
      | Inr keyPair \<Rightarrow>
          (let workchain = 0 in
           case version of
             None \<Rightarrow> Inl (TypeError ''Cannot read properties of null (reading 'toLowerCase')'')
           | Some v \<Rightarrow>
               (let made =
                  (if toLowerCase v = ''v3r2'' then
                     external (create lib WalletContractV3R2
                       \<lparr>workchain = workchain, createPublicKey = publicKey keyPair,
                        walletId = DEFAULT_WALLET_ID\<rparr>)
                   else if toLowerCase v = ''v4'' then
                     external (create lib WalletContractV4
                       \<lparr>workchain = workchain, createPublicKey = publicKey keyPair,
                        walletId = DEFAULT_WALLET_ID\<rparr>)
                   else if toLowerCase v = ''v5'' then
                     external (create lib WalletContractV5R1
                       \<lparr>workchain = workchain, createPublicKey = publicKey keyPair,
                        walletId = DEFAULT_WALLET_ID\<rparr>)
                   else Inl UnsupportedVersion)
                in case made of
                     Inl e \<Rightarrow> Inl e
                   | Inr wallet \<Rightarrow>
                       Inr (addressToString lib wallet \<lparr>urlSafe = True, bounceable = False\<rparr>))))"

definition getWalletAddressFromSeed ::
  "'c ton \<Rightarrow> string list \<Rightarrow> string option \<Rightarrow> err + string" where
  "getWalletAddressFromSeed lib mnemonic version =
     (case getWalletAddressFromSeed_try lib mnemonic version of
        Inl error \<Rightarrow> Inl (AddressError error)
      | Inr addr \<Rightarrow> Inr addr)"

text \<open>\<open>Buffer.from(bytes).toString('hex')\<close>: two lower-case digits for each byte.\<close>

definition hex_digit :: "nat \<Rightarrow> char" where
  "hex_digit d = (if d < 10 then char_of (48 + d) else char_of (87 + d))"

definition hex_of_byte :: "byte \<Rightarrow> string" where
  "hex_of_byte b = [hex_digit (unat b div 16), hex_digit (unat b mod 16)]"

definition toHex :: "byte list \<Rightarrow> string" where
  "toHex bs = concat (map hex_of_byte bs)"

text \<open>
  An entry of \<open>walletData\<close> is \<open>{mnemonic: ...}\<close> or \<open>{address: ...}\<close>; an absent property
  is \<open>None\<close>.  The processed wallet is \<open>{address, private_key}\<close>, or \<open>{address}\<close> alone on
  the PAWS platform.
\<close>

record walletEntry =
  mnemonic :: "string option"
  address :: "string option"

record processedWallet =
  walletAddress :: string
  private_key :: "string option"

definition processWalletData_try ::
  "'c ton \<Rightarrow> walletEntry option \<Rightarrow> string option \<Rightarrow> err + processedWallet" where
  "processWalletData_try lib walletData version =
     (case walletData of
        None \<Rightarrow> Inl (TypeError ''Cannot read properties of undefined (reading 'mnemonic')'')
      | Some entry \<Rightarrow>
          (case mnemonic entry of
             None \<Rightarrow> Inl (TypeError ''Cannot read properties of undefined (reading 'trim')'')
           | Some m \<Rightarrow>
               (let mnemonicArray = split_on CHR '' '' (trim m) in
                if length mnemonicArray \<noteq> 24 then Inl InvalidSeedLength
                else
                  (case external (mnemonicToWalletKey lib mnemonicArray) of
                     Inl e \<Rightarrow> Inl e
                   | Inr keyPair \<Rightarrow>
                       (case getWalletAddressFromSeed lib mnemonicArray version of
                          Inl e \<Rightarrow> Inl e
                        | Inr addr \<Rightarrow>
                            Inr \<lparr>walletAddress = addr,
                                 private_key = Some (toHex (secretKey keyPair))\<rparr>)))))"

definition processWalletData ::
  "'c ton \<Rightarrow> walletEntry option \<Rightarrow> string option \<Rightarrow> err + processedWallet" where
  "processWalletData lib walletData version =
     (case processWalletData_try lib walletData version of
        Inl error \<Rightarrow> Inl (ProcessingError error)
      | Inr wallet \<Rightarrow> Inr wallet)"

text \<open>
  \<open>selectWalletVersion\<close> after the prompt: the \<open>switch\<close> on the line the user typed.
\<close>

definition selectWalletVersion :: "string \<Rightarrow> string" where
  "selectWalletVersion version =
     (if version = ''1'' then ''v3r2''
      else if version = ''2'' then ''v4''
      else if version = ''3'' then ''v5''
      else ''v4'')"

section \<open>Batch processing\<close>

text \<open>
  The four service classes (\<open>./core/paws\<close>, \<open>./core/tsubasa\<close>, \<open>./core/yescoingold\<close>,
  \<open>./core/blum\<close>) talk to the platforms.  They are a parameter of the model: every
  method takes the state \<open>'w\<close> of the outside world and answers with the world after
  the call and one of three things.  \<open>Returned x\<close>: the call returned \<open>x\<close>, or a promise
  that is fulfilled with \<open>x\<close>.  \<open>Thrown msg\<close>: the call threw before it returned.
  \<open>Rejected msg\<close>: the call returned a promise that is rejected.  A value \<open>x\<close> is kept as
  far as the code looks at it: a token or nothing (a falsy value), the truth value of a
  flag, the parsed \<open>availableBalance\<close> of a truthy balance record.  A constructor
  returns or throws (\<open>Some\<close> of the message).  Every promise the code awaits is settled.
  Of a promise the code does not await, \<open>Rejected\<close> says that it is rejected while
  \<open>processWallets\<close> runs; one that is pending for longer is \<open>Returned\<close>.
\<close>

datatype service = PawsService | TsubasaService | YesCoinService | BlumService

datatype 'a outcome = Returned 'a | Thrown string | Rejected string

datatype 'tok credential = Token 'tok | QueryId string

record ('w, 'tok, 'n) environment =
  construct :: "service \<Rightarrow> 'w \<Rightarrow> string option \<times> 'w"
  login :: "service \<Rightarrow> string \<Rightarrow> 'w \<Rightarrow> 'tok option outcome \<times> 'w"
  getNewToken :: "service \<Rightarrow> string \<Rightarrow> 'w \<Rightarrow> 'tok option outcome \<times> 'w"
  init :: "service \<Rightarrow> 'tok credential \<Rightarrow> processedWallet \<Rightarrow> 'w \<Rightarrow> bool outcome \<times> 'w"
  connectWallet :: "service \<Rightarrow> 'w \<Rightarrow> bool outcome \<times> 'w"
  disconnectWallet :: "service \<Rightarrow> 'w \<Rightarrow> bool outcome \<times> 'w"
  hasGetBalance :: "service \<Rightarrow> bool"
  getBalance :: "service \<Rightarrow> 'w \<Rightarrow> 'n option outcome \<times> 'w"
  random :: "'w \<Rightarrow> nat \<times> 'w"

text \<open>
  The trace records, for the account with index \<open>i\<close>, what the loop body does that
  can be seen from outside: the line \<open>Processing Wallet i+1/n\<close>, every call of a service
  (its class, the method with the query id and the wallet it is given, and how the call
  ended for the code), the block of lines of the display action, every
  \<open>successCount++\<close> and \<open>failCount++\<close>, and every \<open>setTimeout\<close> with its delay in
  milliseconds.  A call the code awaits ends with a truthy value, with a falsy value, or
  by throwing at the \<open>await\<close>; of a call it does not await the code sees neither the
  value nor the end: it is \<open>Unawaited\<close>, unless it threw before it returned.
\<close>

datatype result = Truthy | Falsy | Threw | Unawaited

datatype initArg = WithToken | WithQueryId string

datatype operation =
    New
  | Login string
  | GetNewToken string
  | Init initArg processedWallet
  | ConnectWallet
  | DisconnectWallet
  | GetBalance

datatype verdict = Success | Failure

datatype step =
    Processing
  | Called service operation result
  | Displayed
  | Counted verdict
  | Slept int

type_synonym event = "nat \<times> step"

record ('w, 'n) state =
  totalBalance :: 'n
  successCount :: nat
  failCount :: nat
  trace :: "event list"
  world :: 'w

text \<open>
  How a statement of the \<open>try\<close> block ends: it goes on to the next statement with a
  value, it leaves the iteration by \<open>continue\<close>, it throws, or the process ends in it.
  The process ends when a promise that nothing awaits is rejected: \<open>bot.js\<close> installs no
  handler for unhandled rejections, and Node then terminates.  The model ends the run at
  the call that returned the promise.
\<close>

datatype ('a, 's) flow = Normal 'a 's | Continue 's | Throw err 's | Crash string

definition bind_flow :: "('a, 's) flow \<Rightarrow> ('a \<Rightarrow> 's \<Rightarrow> ('b, 's) flow) \<Rightarrow> ('b, 's) flow" where
  "bind_flow m k =
     (case m of
        Normal x s \<Rightarrow> k x s
      | Continue s \<Rightarrow> Continue s
      | Throw e s \<Rightarrow> Throw e s
      | Crash msg \<Rightarrow> Crash msg)"

definition emit :: "nat \<Rightarrow> step \<Rightarrow> ('w, 'n) state \<Rightarrow> ('w, 'n) state" where
  "emit i s st = st\<lparr>trace := trace st @ [(i, s)]\<rparr>"

text \<open>
  One call of a service method, awaited or not.  At an \<open>await\<close> a rejected promise
  throws like a synchronous throw, and the \<open>catch\<close> block gets it.  The two calls
  \<open>service.init(token, processedWallet)\<close> of the YesCoin and Blum branches (lines 267
  and 276) are not awaited: a synchronous throw is caught, a returned value or promise
  is dropped, and a rejected promise is caught by nothing.
\<close>

definition invoke ::
  "nat \<Rightarrow> service \<Rightarrow> operation \<Rightarrow> bool \<Rightarrow> ('a \<Rightarrow> bool) \<Rightarrow> ('w \<Rightarrow> 'a outcome \<times> 'w) \<Rightarrow>
   ('w, 'n) state \<Rightarrow> ('a, ('w, 'n) state) flow" where
  "invoke i svc m awaited truthy f st =
     (case f (world st) of
        (r, w') \<Rightarrow>
          (case r of
             Returned x \<Rightarrow>
               Normal x
                 (emit i (Called svc m (if awaited then (if truthy x then Truthy else Falsy)
                                        else Unawaited))
                    (st\<lparr>world := w'\<rparr>))
           | Thrown msg \<Rightarrow> Throw (External msg) (emit i (Called svc m Threw) (st\<lparr>world := w'\<rparr>))
           | Rejected msg \<Rightarrow>
               if awaited then
                 Throw (External msg) (emit i (Called svc m Threw) (st\<lparr>world := w'\<rparr>))
               else Crash msg))"

text \<open>\<open>new Service()\<close>\<close>

definition constructing ::
  "('w, 'tok, 'n) environment \<Rightarrow> service \<Rightarrow> 'w \<Rightarrow> unit outcome \<times> 'w" where
  "constructing env svc w =
     (case construct env svc w of
        (None, w') \<Rightarrow> (Returned (), w')
      | (Some msg, w') \<Rightarrow> (Thrown msg, w'))"

definition countSuccess :: "nat \<Rightarrow> ('w, 'n) state \<Rightarrow> ('w, 'n) state" where
  "countSuccess i st = emit i (Counted Success) (st\<lparr>successCount := successCount st + 1\<rparr>)"

definition countFail :: "nat \<Rightarrow> ('w, 'n) state \<Rightarrow> ('w, 'n) state" where
  "countFail i st = emit i (Counted Failure) (st\<lparr>failCount := failCount st + 1\<rparr>)"

text \<open>\<open>xs[i]\<close>: \<open>undefined\<close> past the end.\<close>

definition nth_opt :: "'a list \<Rightarrow> nat \<Rightarrow> 'a option" where
  "nth_opt xs i = (if i < length xs then Some (xs ! i) else None)"

text \<open>
  Lines 229 to 278: the service of the platform is made, logged in and initialised.
  The loop runs \<open>i\<close> below \<open>queryIds.length\<close>, so \<open>queryIds ! i\<close> is an entry of the list.
  On PAWS an address that is absent or empty is refused.
\<close>

definition setup_paws ::
  "('w, 'tok, 'n) environment \<Rightarrow> string list \<Rightarrow> walletEntry list \<Rightarrow> nat \<Rightarrow>
   ('w, 'n) state \<Rightarrow> (service \<times> processedWallet, ('w, 'n) state) flow" where
  "setup_paws env queryIds walletData i st =
     (case nth_opt walletData i of
        None \<Rightarrow> Throw (TypeError ''Cannot read properties of undefined (reading 'address')'') st
      | Some entry \<Rightarrow>
          (case address entry of
             None \<Rightarrow> Continue (countFail i st)
           | Some addr \<Rightarrow>
               if addr = [] then Continue (countFail i st)
               else
                 (let processedWallet = \<lparr>walletAddress = addr, private_key = None\<rparr> in
                  bind_flow (invoke i PawsService New True (\<lambda>u. True)
                               (constructing env PawsService) st)
                    (\<lambda>u st1.
                  bind_flow (invoke i PawsService (Login (queryIds ! i)) True (\<lambda>t. t \<noteq> None)
                               (login env PawsService (queryIds ! i)) st1)
                    (\<lambda>pawsToken st2.
                  (case pawsToken of
                     None \<Rightarrow> Continue (countFail i st2)
                   | Some tok \<Rightarrow>
                       bind_flow (invoke i PawsService (Init WithToken processedWallet) True
                                    (\<lambda>b. b)
                                    (init env PawsService (Token tok) processedWallet) st2)
                         (\<lambda>initialized st3.
                            if \<not> initialized then Continue (countFail i st3)
                            else Normal (PawsService, processedWallet) st3)))))))"

definition setup_seed ::
  "('w, 'tok, 'n) environment \<Rightarrow> 'c ton \<Rightarrow> string list \<Rightarrow> walletEntry list \<Rightarrow>
   string option \<Rightarrow> string \<Rightarrow> nat \<Rightarrow>
   ('w, 'n) state \<Rightarrow> (service \<times> processedWallet, ('w, 'n) state) flow" where
  "setup_seed env lib queryIds walletData version platform i st =
     (case processWalletData lib (nth_opt walletData i) version of
        Inl e \<Rightarrow> Throw e st
      | Inr processedWallet \<Rightarrow>
          (if platform = ''tsubasa'' then
             bind_flow (invoke i TsubasaService New True (\<lambda>u. True)
                          (constructing env TsubasaService) st)
               (\<lambda>u st1.
             bind_flow (invoke i TsubasaService
                          (Init (WithQueryId (queryIds ! i)) processedWallet) True (\<lambda>b. b)
                          (init env TsubasaService (QueryId (queryIds ! i)) processedWallet) st1)
               (\<lambda>r st2. Normal (TsubasaService, processedWallet) st2))
           else if platform = ''yescoin'' then
             bind_flow (invoke i YesCoinService New True (\<lambda>u. True)
                          (constructing env YesCoinService) st)
               (\<lambda>u st1.
             bind_flow (invoke i YesCoinService (Login (queryIds ! i)) True (\<lambda>t. t \<noteq> None)
                          (login env YesCoinService (queryIds ! i)) st1)
               (\<lambda>token st2.
             (case token of
                None \<Rightarrow> Continue (countFail i st2)
              | Some tok \<Rightarrow>
                  bind_flow (invoke i YesCoinService (Init WithToken processedWallet) False
                               (\<lambda>b. b)
                               (init env YesCoinService (Token tok) processedWallet) st2)
                    (\<lambda>r st3. Normal (YesCoinService, processedWallet) st3))))
           else
             bind_flow (invoke i BlumService New True (\<lambda>u. True)
                          (constructing env BlumService) st)
               (\<lambda>u st1.
             bind_flow (invoke i BlumService (GetNewToken (queryIds ! i)) True (\<lambda>t. t \<noteq> None)
                          (getNewToken env BlumService (queryIds ! i)) st1)
               (\<lambda>token st2.
             (case token of
                None \<Rightarrow> Continue (countFail i st2)
              | Some tok \<Rightarrow>
                  bind_flow (invoke i BlumService (Init WithToken processedWallet) False
                               (\<lambda>b. b)
                               (init env BlumService (Token tok) processedWallet) st2)
                    (\<lambda>r st3. Normal (BlumService, processedWallet) st3))))))"

text \<open>Lines 280 to 323: the action chosen in the menu, on the service just set up.\<close>

definition perform ::
  "('w, 'tok, 'n::plus) environment \<Rightarrow> string \<Rightarrow> string \<Rightarrow> nat \<Rightarrow> service \<Rightarrow>
   ('w, 'n) state \<Rightarrow> (unit, ('w, 'n) state) flow" where
  "perform env action platform i svc st =
     (if action = ''1'' then
        bind_flow (invoke i svc ConnectWallet True (\<lambda>b. b) (connectWallet env svc) st)
          (\<lambda>connected st1.
             if connected then
               bind_flow
                 (if platform = ''blum'' \<and> hasGetBalance env svc then
                    bind_flow (invoke i svc GetBalance True (\<lambda>b. b \<noteq> None)
                                 (getBalance env svc) st1)
                      (\<lambda>balanceInfo st2.
                         (case balanceInfo of
                            None \<Rightarrow> Normal () st2
                          | Some balance \<Rightarrow>
                              Normal () (st2\<lparr>totalBalance := totalBalance st2 + balance\<rparr>)))
                  else Normal () st1)
                 (\<lambda>u st3. Normal () (countSuccess i st3))
             else Normal () (countFail i st1))
      else if action = ''2'' then
        bind_flow (invoke i svc DisconnectWallet True (\<lambda>b. b) (disconnectWallet env svc) st)
          (\<lambda>disconnected st1.
             if disconnected then Normal () (countSuccess i st1)
             else Normal () (countFail i st1))
      else Normal () (countSuccess i (emit i Displayed st)))"

text \<open>
  Lines 325 to 328: \<open>Math.floor(Math.random() * (3000 - 1000 + 1)) + 1000\<close>.
  \<open>Math.random()\<close> is a double in \<open>[0, 1)\<close>; the model takes it to be a multiple of
  \<open>2^-53\<close> (the engine of Node draws multiples of \<open>2^-52\<close>) and draws its numerator from
  the world.  The product is a double again: the exact product, a fraction
  over \<open>2^53\<close>, rounded to 53 significant bits, ties to the even one.  \<open>excess n\<close> is the
  number of bits of \<open>n\<close> beyond 53; \<open>round53 n\<close> is the numerator of the double nearest
  to \<open>n / 2^53\<close>.  The floor and the sum are exact.
\<close>

fun excess :: "nat \<Rightarrow> nat" where
  "excess n = (if n < 2 ^ 53 then 0 else Suc (excess (n div 2)))"

declare excess.simps [simp del]

definition round53 :: "nat \<Rightarrow> nat" where
  "round53 n =
     (let s = excess n; m = n div 2 ^ s; r = n mod 2 ^ s
      in if s = 0 then n
         else (if 2 ^ (s - 1) < r \<or> (r = 2 ^ (s - 1) \<and> odd m) then m + 1 else m) * 2 ^ s)"

definition mathRandom :: "nat \<Rightarrow> nat" where
  "mathRandom k = k mod 2 ^ 53"

definition delay_ms :: "nat \<Rightarrow> int" where
  "delay_ms k = int (round53 (mathRandom k * (3000 - 1000 + 1)) div 2 ^ 53) + 1000"

definition delay ::
  "('w, 'tok, 'n) environment \<Rightarrow> nat \<Rightarrow> nat \<Rightarrow> ('w, 'n) state \<Rightarrow> ('w, 'n) state" where
  "delay env n i st =
     (if i < n - 1 then
        (case random env (world st) of
           (k, w') \<Rightarrow> emit i (Slept (delay_ms k)) (st\<lparr>world := w'\<rparr>))
      else st)"

text \<open>
  The body of the \<open>for\<close> loop, with its \<open>catch\<close> block.  It gives the state after the
  iteration, or the error with which the process ended in it.
\<close>

definition iteration ::
  "('w, 'tok, 'n::plus) environment \<Rightarrow> 'c ton \<Rightarrow> string \<Rightarrow> string list \<Rightarrow> walletEntry list \<Rightarrow>
   string option \<Rightarrow> string \<Rightarrow> nat \<Rightarrow> ('w, 'n) state \<Rightarrow> err + ('w, 'n) state" where
  "iteration env lib action queryIds walletData version platform i st =
     (case bind_flow
             (bind_flow
                (if platform = ''paws'' then setup_paws env queryIds walletData i (emit i Processing st)
                 else setup_seed env lib queryIds walletData version platform i (emit i Processing st))
                (\<lambda>(service, processedWallet) st1. perform env action platform i service st1))
             (\<lambda>u st2. Normal () (delay env (length queryIds) i st2)) of
        Normal u st' \<Rightarrow> Inr st'
      | Continue st' \<Rightarrow> Inr st'
      | Throw error st' \<Rightarrow> Inr (countFail i st')
      | Crash msg \<Rightarrow> Inl (UnhandledRejection msg))"

text \<open>\<open>for (let i = start; i < n; i++) body\<close>, left when the process ends in the body.\<close>

function for_loop :: "(nat \<Rightarrow> 's \<Rightarrow> err + 's) \<Rightarrow> nat \<Rightarrow> nat \<Rightarrow> 's \<Rightarrow> err + 's" where
  "for_loop body n i st =
     (if i < n then
        (case body i st of
           Inl e \<Rightarrow> Inl e
         | Inr st' \<Rightarrow> for_loop body n (Suc i) st')
      else Inr st)"
  by pat_completeness auto
termination
  by (relation "measure (\<lambda>(body, n, i, st). n - i)") auto

declare for_loop.simps [simp del]

text \<open>
  \<open>processWallets\<close>.  The banner printed first reads \<open>version.toUpperCase()\<close> unless the
  platform is PAWS, outside every \<open>try\<close>: with the version \<open>null\<close> the call throws.
  Otherwise, unless the process ends in the loop, it returns
  \<open>{successCount, failCount, totalBalance}\<close> of the final state.
\<close>

definition processWallets ::
  "('w, 'tok, 'n::{zero,plus}) environment \<Rightarrow> 'c ton \<Rightarrow> string \<Rightarrow> string list \<Rightarrow>
   walletEntry list \<Rightarrow> string option \<Rightarrow> string \<Rightarrow> 'w \<Rightarrow> err + ('w, 'n) state" where
  "processWallets env lib action queryIds walletData version platform w =
     (if platform \<noteq> ''paws'' \<and> version = None then
        Inl (TypeError ''Cannot read properties of null (reading 'toUpperCase')'')
      else
        for_loop (iteration env lib action queryIds walletData version platform)
          (length queryIds) 0
          \<lparr>totalBalance = 0, successCount = 0, failCount = 0, trace = [], world = w\<rparr>)"

section \<open>Loading the lists\<close>

text \<open>
  \<open>fs.readFileSync(name, 'utf8')\<close> is a parameter: the text of the file, or \<open>Inl\<close> of
  the message of the error it throws.  What \<open>loadData\<close> prints is kept as a list of
  lines: \<open>Loaded n wallet(s) with matching queries\<close> and \<open>Error loading data: ...\<close>.
\<close>

datatype logLine = Loaded nat | ErrorLoading err

definition nonblank_lines :: "string \<Rightarrow> string list" where
  "nonblank_lines text = filter (\<lambda>line. trim line \<noteq> []) (split_on CHR 0x0A text)"

definition loadData_try ::
  "(string \<Rightarrow> string + string) \<Rightarrow> string \<Rightarrow>
   err + logLine list \<times> walletEntry list \<times> string list" where
  "loadData_try readFileSync platform =
     (if platform = ''paws'' then
        (case external (readFileSync ''wallet.txt'') of
           Inl e \<Rightarrow> Inl e
         | Inr text \<Rightarrow>
             (let wallets = nonblank_lines text in
              case external (readFileSync ''query.txt'') of
                Inl e \<Rightarrow> Inl e
              | Inr queries \<Rightarrow>
                  (let queryIds = nonblank_lines queries in
                   if length wallets \<noteq> length queryIds then
                     Inl (Mismatch ''wallets'' (length wallets) (length queryIds))
                   else
                     Inr ([Loaded (length wallets)],
                          map (\<lambda>a. \<lparr>mnemonic = None, address = Some (trim a)\<rparr>) wallets,
                          queryIds))))
      else
        (case external (readFileSync ''seed.txt'') of
           Inl e \<Rightarrow> Inl e
         | Inr text \<Rightarrow>
             (let seeds = nonblank_lines text in
              case external (readFileSync ''query.txt'') of
                Inl e \<Rightarrow> Inl e
              | Inr queries \<Rightarrow>
                  (let queryIds = nonblank_lines queries in
                   if length seeds \<noteq> length queryIds then
                     Inl (Mismatch ''seeds'' (length seeds) (length queryIds))
                   else
                     Inr ([Loaded (length seeds)],
                          map (\<lambda>seed. \<lparr>mnemonic = Some seed, address = None\<rparr>) seeds,
                          queryIds)))))"

text \<open>\<open>loadData\<close>: what it printed, and the value returned (\<open>None\<close> is \<open>null\<close>).\<close>

definition loadData ::
  "(string \<Rightarrow> string + string) \<Rightarrow> string \<Rightarrow>
   logLine list \<times> (walletEntry list \<times> string list) option" where
  "loadData readFileSync platform =
     (case loadData_try readFileSync platform of
        Inl error \<Rightarrow> ([ErrorLoading error], None)
      | Inr (printed, d) \<Rightarrow> (printed, Some d))"

section \<open>Stand-ins for the outside world\<close>

text \<open>
  Concrete libraries, files and services, on which the theorems below are run.  The
  stand-in for the TON library derives the same key pair from every non-empty word list
  and names the address after the contract class.
\<close>

definition seed24 :: string where
  "seed24 = '' a a a a a a a a a a a a a a a a a a a a a a a b  ''"

definition stub_ton :: "(contract \<times> createArgs) ton" where
  "stub_ton =
     \<lparr>mnemonicToWalletKey =
        (\<lambda>ws. if ws = [] then Inl ''empty mnemonic''
              else Inr \<lparr>publicKey = [1, 2], secretKey = [171, 5]\<rparr>),
      create = (\<lambda>c a. Inr (c, a)),
      addressToString =
        (\<lambda>w f. case fst w of
                  WalletContractV3R2 \<Rightarrow> ''UQ-v3r2''
                | WalletContractV4 \<Rightarrow> ''UQ-v4''
                | WalletContractV5R1 \<Rightarrow> ''UQ-v5'')\<rparr>"

definition stub_files :: "string \<Rightarrow> string + string" where
  "stub_files name =
     (if name = ''seed.txt'' then Inr [CHR ''a'', CHR '' '', CHR ''b'', CHR 0x0A, CHR '' '', CHR 0x0A,
                                      CHR ''c'', CHR 0x0A]
      else if name = ''query.txt'' then Inr [CHR ''q'', CHR 0x0A, CHR 0x0A, CHR ''r'']
      else if name = ''wallet.txt'' then Inr [CHR '' '', CHR ''U'', CHR ''Q'', CHR 0x0A]
      else Inl ''ENOENT: no such file or directory'')"

definition no_files :: "string \<Rightarrow> string + string" where
  "no_files name = Inl ''ENOENT: no such file or directory''"

text \<open>
  The stand-in for the services keeps the number of calls made as the state of the
  world.  A login or a token request with the query id \<open>expired\<close> gives no token,
  disconnecting throws, every other call succeeds; the balance is 5, and
  \<open>Math.random()\<close> is always one half.  Two variants differ in the initialisation
  only: in \<open>refusing_env\<close> it returns \<open>false\<close>, in \<open>rejecting_env\<close> it returns a promise
  that is rejected.
\<close>

definition stub_env :: "(nat, string, int) environment" where
  "stub_env =
     \<lparr>construct = (\<lambda>svc w. (None, Suc w)),
      login = (\<lambda>svc q w. (if q = ''expired'' then Returned None else Returned (Some q), Suc w)),
      getNewToken = (\<lambda>svc q w. (if q = ''expired'' then Returned None else Returned (Some q), Suc w)),
      init = (\<lambda>svc c pw w. (Returned True, Suc w)),
      connectWallet = (\<lambda>svc w. (Returned True, Suc w)),
      disconnectWallet = (\<lambda>svc w. (Thrown ''timeout'', Suc w)),
      hasGetBalance = (\<lambda>svc. svc = BlumService),
      getBalance = (\<lambda>svc w. (Returned (Some 5), Suc w)),
      random = (\<lambda>w. (2 ^ 52, Suc w))\<rparr>"

definition refusing_env :: "(nat, string, int) environment" where
  "refusing_env = stub_env\<lparr>init := (\<lambda>svc c pw w. (Returned False, Suc w))\<rparr>"

definition rejecting_env :: "(nat, string, int) environment" where
  "rejecting_env = stub_env\<lparr>init := (\<lambda>svc c pw w. (Rejected ''init failed'', Suc w))\<rparr>"

definition seed_entry :: walletEntry where
  "seed_entry = \<lparr>mnemonic = Some seed24, address = None\<rparr>"

text \<open>The wallet that \<open>processWalletData\<close> makes of \<open>seed_entry\<close> with version \<open>v4\<close>.\<close>

definition seed_wallet :: processedWallet where
  "seed_wallet = \<lparr>walletAddress = ''UQ-v4'', private_key = Some ''ab05''\<rparr>"

text \<open>
  Five runs on the stand-ins, with the final state of each: connecting three accounts
  on Blum, the first with an expired query id; connecting one account on Tsubasa;
  disconnecting one account on Tsubasa; connecting one account on Tsubasa when the
  initialisation returns \<open>false\<close>; displaying two accounts on PAWS.
\<close>

definition blum_trace :: "event list" where
  "blum_trace =
     [(0, Processing), (0, Called BlumService New Truthy),
      (0, Called BlumService (GetNewToken ''expired'') Falsy), (0, Counted Failure),
      (1, Processing), (1, Called BlumService New Truthy),
      (1, Called BlumService (GetNewToken ''fresh'') Truthy),
      (1, Called BlumService (Init WithToken seed_wallet) Unawaited),
      (1, Called BlumService ConnectWallet Truthy),
      (1, Called BlumService GetBalance Truthy), (1, Counted Success),
      (1, Slept 2000),
      (2, Processing), (2, Called BlumService New Truthy),
      (2, Called BlumService (GetNewToken ''fresh'') Truthy),
      (2, Called BlumService (Init WithToken seed_wallet) Unawaited),
      (2, Called BlumService ConnectWallet Truthy),
      (2, Called BlumService GetBalance Truthy), (2, Counted Success)]"

definition blum_result :: "(nat, int) state" where
  "blum_result =
     \<lparr>totalBalance = 10, successCount = 2, failCount = 1, trace = blum_trace, world = 13\<rparr>"

definition connect_trace :: "event list" where
  "connect_trace =
     [(0, Processing), (0, Called TsubasaService New Truthy),
      (0, Called TsubasaService (Init (WithQueryId ''fresh'') seed_wallet) Truthy),
      (0, Called TsubasaService ConnectWallet Truthy), (0, Counted Success)]"

definition connect_result :: "(nat, int) state" where
  "connect_result =
     \<lparr>totalBalance = 0, successCount = 1, failCount = 0, trace = connect_trace, world = 3\<rparr>"

definition disconnect_trace :: "event list" where
  "disconnect_trace =
     [(0, Processing), (0, Called TsubasaService New Truthy),
      (0, Called TsubasaService (Init (WithQueryId ''fresh'') seed_wallet) Truthy),
      (0, Called TsubasaService DisconnectWallet Threw), (0, Counted Failure)]"

definition disconnect_result :: "(nat, int) state" where
  "disconnect_result =
     \<lparr>totalBalance = 0, successCount = 0, failCount = 1, trace = disconnect_trace, world = 3\<rparr>"

definition refused_trace :: "event list" where
  "refused_trace =
     [(0, Processing), (0, Called TsubasaService New Truthy),
      (0, Called TsubasaService (Init (WithQueryId ''fresh'') seed_wallet) Falsy),
      (0, Called TsubasaService ConnectWallet Truthy), (0, Counted Success)]"

definition refused_result :: "(nat, int) state" where
  "refused_result =
     \<lparr>totalBalance = 0, successCount = 1, failCount = 0, trace = refused_trace, world = 3\<rparr>"



section \<open>Notions used in the statements\<close>

subsection \<open>Files and entries\<close>

text \<open>The file with the wallets of a platform, and the entry \<open>loadData\<close> makes of a line.\<close>

definition data_file :: "string \<Rightarrow> string" where
  "data_file platform = (if platform = ''paws'' then ''wallet.txt'' else ''seed.txt'')"

definition entry_of :: "string \<Rightarrow> string \<Rightarrow> walletEntry" where
  "entry_of platform line =
     (if platform = ''paws'' then \<lparr>mnemonic = None, address = Some (trim line)\<rparr>
      else \<lparr>mnemonic = Some line, address = None\<rparr>)"

subsection \<open>The steps of one account\<close>

text \<open>
  The steps of the account with index \<open>i\<close> in a trace, in the order they happened.
\<close>

definition steps_of :: "nat \<Rightarrow> event list \<Rightarrow> step list" where
  "steps_of i tr = map snd (filter (\<lambda>e. fst e = i) tr)"

text \<open>
  The place of a step in an iteration: the banner line, the constructor of the service,
  the login or the token, the initialisation, the action (connect, disconnect or the
  display), the balance query, the counting, the delay.
\<close>

fun rank :: "step \<Rightarrow> nat" where
  "rank Processing = 0"
| "rank (Called svc New r) = 1"
| "rank (Called svc (Login q) r) = 2"
| "rank (Called svc (GetNewToken q) r) = 2"
| "rank (Called svc (Init a pw) r) = 3"
| "rank (Called svc ConnectWallet r) = 4"
| "rank (Called svc DisconnectWallet r) = 4"
| "rank Displayed = 4"
| "rank (Called svc GetBalance r) = 5"
| "rank (Counted v) = 6"
| "rank (Slept ms) = 7"

text \<open>
  Kinds of steps: a login or a token acquisition (\<open>is_login\<close>), one that gave a token,
  one that gave none; an initialisation, one that has returned to the code (with a
  value where the code awaits it, with its promise where it does not); the selected
  action.
\<close>

fun is_login :: "step \<Rightarrow> bool" where
  "is_login (Called svc (Login q) r) = True"
| "is_login (Called svc (GetNewToken q) r) = True"
| "is_login s = False"

fun token_obtained :: "step \<Rightarrow> bool" where
  "token_obtained (Called svc (Login q) Truthy) = True"
| "token_obtained (Called svc (GetNewToken q) Truthy) = True"
| "token_obtained s = False"

fun no_token :: "step \<Rightarrow> bool" where
  "no_token (Called svc (Login q) Falsy) = True"
| "no_token (Called svc (GetNewToken q) Falsy) = True"
| "no_token s = False"

fun is_init :: "step \<Rightarrow> bool" where
  "is_init (Called svc (Init a pw) r) = True"
| "is_init s = False"

fun initialised :: "step \<Rightarrow> bool" where
  "initialised (Called svc (Init a pw) Truthy) = True"
| "initialised (Called svc (Init a pw) Falsy) = True"
| "initialised (Called svc (Init a pw) Unawaited) = True"
| "initialised s = False"

fun is_operation :: "step \<Rightarrow> bool" where
  "is_operation (Called svc ConnectWallet r) = True"
| "is_operation (Called svc DisconnectWallet r) = True"
| "is_operation Displayed = True"
| "is_operation s = False"

text \<open>
  \<open>unsuccessful\<close>: a call of one of the five platform operations (login, token
  acquisition, initialisation, connect, disconnect) or of another method that did not
  succeed: it threw, or it gave a falsy value.
\<close>

fun unsuccessful :: "step \<Rightarrow> bool" where
  "unsuccessful (Called svc m Threw) = True"
| "unsuccessful (Called svc (Login q) Falsy) = True"
| "unsuccessful (Called svc (GetNewToken q) Falsy) = True"
| "unsuccessful (Called svc (Init a pw) Falsy) = True"
| "unsuccessful (Called svc ConnectWallet Falsy) = True"
| "unsuccessful (Called svc DisconnectWallet Falsy) = True"
| "unsuccessful s = False"

text \<open>
  \<open>failed\<close>: a call that did not succeed as far as the code finds out.  It threw, or it
  returned a falsy value that the code tests: the token, the result of connecting or
  disconnecting, and on PAWS the result of the initialisation (lines 247 to 252).  The
  value of the initialisation on Tsubasa is awaited and dropped (line 258).
\<close>

fun failed :: "step \<Rightarrow> bool" where
  "failed (Called svc m Threw) = True"
| "failed (Called svc (Login q) Falsy) = True"
| "failed (Called svc (GetNewToken q) Falsy) = True"
| "failed (Called PawsService (Init a pw) Falsy) = True"
| "failed (Called svc ConnectWallet Falsy) = True"
| "failed (Called svc DisconnectWallet Falsy) = True"
| "failed s = False"

text \<open>\<open>calls m s\<close>: the step \<open>s\<close> is a call of the same method as \<open>m\<close>, whatever its arguments.\<close>

fun kind :: "operation \<Rightarrow> nat" where
  "kind New = 0"
| "kind (Login q) = 1"
| "kind (GetNewToken q) = 2"
| "kind (Init a pw) = 3"
| "kind ConnectWallet = 4"
| "kind DisconnectWallet = 5"
| "kind GetBalance = 6"

fun calls :: "operation \<Rightarrow> step \<Rightarrow> bool" where
  "calls m (Called svc m' r) = (kind m' = kind m)"
| "calls m s = False"





fun is_slept :: "step \<Rightarrow> bool" where
  "is_slept (Slept ms) = True"
| "is_slept s = False"

text \<open>
  The wallet the loop makes of an entry of \<open>walletData\<close> before it calls the service:
  on PAWS the address of the entry, if it is there and not empty (lines 230 to 237), on
  the other platforms what \<open>processWalletData\<close> returns (line 254).  \<open>None\<close>: no wallet
  is made, and the iteration ends there.
\<close>

definition wallet_for ::
  "'c ton \<Rightarrow> string option \<Rightarrow> string \<Rightarrow> walletEntry option \<Rightarrow> processedWallet option" where
  "wallet_for lib version platform e =
     (if platform = ''paws'' then
        (case e of
           None \<Rightarrow> None
         | Some entry \<Rightarrow>
             (case address entry of
                None \<Rightarrow> None
              | Some a \<Rightarrow> if a = [] then None else Some \<lparr>walletAddress = a, private_key = None\<rparr>))
      else
        (case processWalletData lib e version of
           Inl e \<Rightarrow> None
         | Inr pw \<Rightarrow> Some pw))"

subsection \<open>The shapes of an iteration\<close>

text \<open>
  The service of a platform and its three calls of the set-up.  Every platform string
  other than \<open>paws\<close>, \<open>tsubasa\<close> and \<open>yescoin\<close> takes the Blum branch.
\<close>

definition service_of :: "string \<Rightarrow> service" where
  "service_of platform =
     (if platform = ''paws'' then PawsService
      else if platform = ''tsubasa'' then TsubasaService
      else if platform = ''yescoin'' then YesCoinService
      else BlumService)"

definition new_call :: "string \<Rightarrow> result \<Rightarrow> step" where
  "new_call platform r = Called (service_of platform) New r"

definition token_call :: "string \<Rightarrow> string \<Rightarrow> result \<Rightarrow> step" where
  "token_call platform q r =
     Called (service_of platform)
       (if platform = ''paws'' \<or> platform = ''yescoin'' then Login q else GetNewToken q) r"

definition init_call :: "string \<Rightarrow> string \<Rightarrow> processedWallet \<Rightarrow> result \<Rightarrow> step" where
  "init_call platform q pw r =
     Called (service_of platform)
       (Init (if platform = ''tsubasa'' then WithQueryId q else WithToken) pw) r"

text \<open>
  What the set-up can leave in the trace for the query id \<open>q\<close> and the wallet made of the
  entry, when it goes on to the action, when it leaves the iteration by \<open>continue\<close>, and
  when it throws; and the same for the action.
\<close>

definition setup_done :: "string \<Rightarrow> string \<Rightarrow> processedWallet option \<Rightarrow> step list list" where
  "setup_done platform q pwo =
     (case pwo of
        None \<Rightarrow> []
      | Some pw \<Rightarrow>
          (if platform = ''paws'' then
             [[new_call platform Truthy, token_call platform q Truthy,
               init_call platform q pw Truthy]]
           else if platform = ''tsubasa'' then
             [[new_call platform Truthy, init_call platform q pw Truthy],
              [new_call platform Truthy, init_call platform q pw Falsy]]
           else
             [[new_call platform Truthy, token_call platform q Truthy,
               init_call platform q pw Unawaited]]))"

definition setup_continued :: "string \<Rightarrow> string \<Rightarrow> processedWallet option \<Rightarrow> step list list" where
  "setup_continued platform q pwo =
     (case pwo of
        None \<Rightarrow> (if platform = ''paws'' then [[Counted Failure]] else [])
      | Some pw \<Rightarrow>
          (if platform = ''paws'' then
             [[new_call platform Truthy, token_call platform q Falsy, Counted Failure],
              [new_call platform Truthy, token_call platform q Truthy,
               init_call platform q pw Falsy, Counted Failure]]
           else if platform = ''tsubasa'' then []
           else [[new_call platform Truthy, token_call platform q Falsy, Counted Failure]]))"

definition setup_thrown :: "string \<Rightarrow> string \<Rightarrow> processedWallet option \<Rightarrow> step list list" where
  "setup_thrown platform q pwo =
     (case pwo of
        None \<Rightarrow> [[]]
      | Some pw \<Rightarrow>
          (if platform = ''tsubasa'' then
             [[new_call platform Threw],
              [new_call platform Truthy, init_call platform q pw Threw]]
           else
             [[new_call platform Threw],
              [new_call platform Truthy, token_call platform q Threw],
              [new_call platform Truthy, token_call platform q Truthy,
               init_call platform q pw Threw]]))"

definition action_done :: "string \<Rightarrow> string \<Rightarrow> step list list" where
  "action_done platform action =
     (if action = ''1'' then
        [[Called (service_of platform) ConnectWallet Truthy, Counted Success],
         [Called (service_of platform) ConnectWallet Falsy, Counted Failure]] @
        (if platform = ''blum'' then
           [[Called (service_of platform) ConnectWallet Truthy,
             Called (service_of platform) GetBalance Truthy, Counted Success],
            [Called (service_of platform) ConnectWallet Truthy,
             Called (service_of platform) GetBalance Falsy, Counted Success]]
         else [])
      else if action = ''2'' then
        [[Called (service_of platform) DisconnectWallet Truthy, Counted Success],
         [Called (service_of platform) DisconnectWallet Falsy, Counted Failure]]
      else [[Displayed, Counted Success]])"

definition action_thrown :: "string \<Rightarrow> string \<Rightarrow> step list list" where
  "action_thrown platform action =
     (if action = ''1'' then
        [[Called (service_of platform) ConnectWallet Threw]] @
        (if platform = ''blum'' then
           [[Called (service_of platform) ConnectWallet Truthy,
             Called (service_of platform) GetBalance Threw]]
         else [])
      else if action = ''2'' then [[Called (service_of platform) DisconnectWallet Threw]]
      else [])"

text \<open>
  The steps of a whole iteration for the query id \<open>q\<close> and the wallet \<open>pwo\<close>, with \<open>d\<close>
  the steps of the delay: nothing, or one \<open>Slept ms\<close> when another account follows.
\<close>

definition blocks ::
  "string \<Rightarrow> string \<Rightarrow> string \<Rightarrow> processedWallet option \<Rightarrow> step list \<Rightarrow> step list list" where
  "blocks platform action q pwo d =
     map (\<lambda>s. Processing # s @ [Counted Failure]) (setup_thrown platform q pwo) @
     map (\<lambda>s. Processing # s) (setup_continued platform q pwo) @
     concat (map (\<lambda>s. map (\<lambda>t. Processing # s @ t @ [Counted Failure]) (action_thrown platform action))
               (setup_done platform q pwo)) @
     concat (map (\<lambda>s. map (\<lambda>t. Processing # s @ t @ d) (action_done platform action))
               (setup_done platform q pwo))"

definition delays :: "bool \<Rightarrow> step list \<Rightarrow> bool" where
  "delays another d = (if another then \<exists>ms. 1000 \<le> ms \<and> ms \<le> 3000 \<and> d = [Slept ms] else d = [])"

definition valid_block ::
  "string \<Rightarrow> string \<Rightarrow> string \<Rightarrow> processedWallet option \<Rightarrow> bool \<Rightarrow> step list \<Rightarrow> bool" where
  "valid_block platform action q pwo another b =
     (\<exists>d. delays another d \<and> b \<in> set (blocks platform action q pwo d))"

subsection \<open>Relating states\<close>

text \<open>
  \<open>grown i st st' b\<close>: from \<open>st\<close> to \<open>st'\<close> the trace grew by the steps \<open>b\<close> of account
  \<open>i\<close>, each counter grew by the number of its counting steps in \<open>b\<close>, and the balance
  changed only if \<open>b\<close> has a balance query that returned a value.  \<open>unchanged\<close> is the
  case of one step that touches neither counter nor balance.
\<close>

definition grown :: "nat \<Rightarrow> ('w, 'n) state \<Rightarrow> ('w, 'n) state \<Rightarrow> step list \<Rightarrow> bool" where
  "grown i st st' b =
     (trace st' = trace st @ map (Pair i) b \<and>
      successCount st' = successCount st + count_list b (Counted Success) \<and>
      failCount st' = failCount st + count_list b (Counted Failure) \<and>
      (totalBalance st' \<noteq> totalBalance st \<longrightarrow> (\<exists>svc. Called svc GetBalance Truthy \<in> set b)))"

definition unchanged :: "nat \<Rightarrow> ('w, 'n) state \<Rightarrow> ('w, 'n) state \<Rightarrow> step \<Rightarrow> bool" where
  "unchanged i st st' s =
     (trace st' = trace st @ [(i, s)] \<and> successCount st' = successCount st \<and>
      failCount st' = failCount st \<and> totalBalance st' = totalBalance st)"

text \<open>
  The four ways a statement ends, each with its condition: on the state reached for the
  first three, and \<open>K\<close> for the end of the process.
\<close>

definition post ::
  "('a, 's) flow \<Rightarrow> ('a \<Rightarrow> 's \<Rightarrow> bool) \<Rightarrow> ('s \<Rightarrow> bool) \<Rightarrow> ('s \<Rightarrow> bool) \<Rightarrow> bool \<Rightarrow> bool" where
  "post fl N C T K =
     (case fl of Normal x s \<Rightarrow> N x s | Continue s \<Rightarrow> C s | Throw e s \<Rightarrow> T s | Crash msg \<Rightarrow> K)"

definition block_of ::
  "'c ton \<Rightarrow> string option \<Rightarrow> walletEntry list \<Rightarrow> string \<Rightarrow> string \<Rightarrow> string list \<Rightarrow> nat \<Rightarrow>
   ('w, 'n) state \<Rightarrow> ('w, 'n) state \<Rightarrow> bool" where
  "block_of lib version walletData platform action queryIds i st st' =
     (\<exists>b. valid_block platform action (queryIds ! i)
            (wallet_for lib version platform (nth_opt walletData i))
            (i < length queryIds - 1) b \<and>
          grown i st st' b)"

text \<open>
  The trace of the first \<open>k\<close> iterations laid out account by account, and what holds
  of the state after them.
\<close>

definition laid_out :: "(nat \<Rightarrow> step list) \<Rightarrow> nat \<Rightarrow> event list" where
  "laid_out B k = concat (map (\<lambda>j. map (Pair j) (B j)) [0..<k])"

definition run_inv ::
  "'c ton \<Rightarrow> string option \<Rightarrow> walletEntry list \<Rightarrow> string \<Rightarrow> string \<Rightarrow> string list \<Rightarrow> nat \<Rightarrow>
   ('w, 'n::zero) state \<Rightarrow> bool" where
  "run_inv lib version walletData platform action queryIds k st =
     (\<exists>B. trace st = laid_out B k \<and>
          (\<forall>j<k. valid_block platform action (queryIds ! j)
                    (wallet_for lib version platform (nth_opt walletData j))
                    (j < length queryIds - 1) (B j)) \<and>
          successCount st = (\<Sum>j<k. count_list (B j) (Counted Success)) \<and>
          failCount st = (\<Sum>j<k. count_list (B j) (Counted Failure)) \<and>
          (totalBalance st \<noteq> 0 \<longrightarrow> (\<exists>j<k. \<exists>svc. Called svc GetBalance Truthy \<in> set (B j))))"



section \<open>Wallet derivation: the theorems\<close>

lemmas char_eval = char_of_def bit_Suc_0_iff

lemma seed24_words: "length (split_on CHR '' '' (trim seed24)) = 24"
  by (simp add: seed24_def trim_def is_ws_def)

lemma toLowerCase_V4: "toLowerCase ''V4'' = ''v4''"
  by (simp add: toLowerCase_def lower_char_def char_eval)

lemma toHex_example: "toHex [171, 5] = ''ab05''"
  by (simp add: toHex_def hex_of_byte_def hex_digit_def char_eval)

text \<open>
  C1: a wallet entry whose mnemonic, trimmed and split at the spaces, has not exactly 24
  parts makes \<open>processWalletData\<close> throw the error with the message
  \<open>Error processing wallet data: Invalid seed phrase length - must be 24 words\<close>, so that
  no address and no key is returned.  With 24 parts and a version whose lower-case form is
  \<open>v3r2\<close>, \<open>v4\<close> or \<open>v5\<close>, it returns the address of the contract made from the derived
  key pair together with the secret key in hexadecimal, provided the library derives the
  key pair and makes the contract without throwing.
\<close>

theorem processWalletData_seed_length:
  assumes "mnemonic entry = Some m"
  shows "(length (split_on CHR '' '' (trim m)) \<noteq> 24 \<longrightarrow>
            processWalletData lib (Some entry) version = Inl (ProcessingError InvalidSeedLength) \<and>
            message (ProcessingError InvalidSeedLength) =
              ''Error processing wallet data: Invalid seed phrase length - must be 24 words'')
       \<and> (length (split_on CHR '' '' (trim m)) = 24 \<and>
          (toLowerCase v = ''v3r2'' \<and> c = WalletContractV3R2 \<or>
           toLowerCase v = ''v4'' \<and> c = WalletContractV4 \<or>
           toLowerCase v = ''v5'' \<and> c = WalletContractV5R1) \<and>
          mnemonicToWalletKey lib (split_on CHR '' '' (trim m)) = Inr kp \<and>
          create lib c \<lparr>workchain = 0, createPublicKey = publicKey kp, walletId = 698983191\<rparr> = Inr w \<longrightarrow>
            processWalletData lib (Some entry) (Some v) =
              Inr \<lparr>walletAddress = addressToString lib w \<lparr>urlSafe = True, bounceable = False\<rparr>,
                   private_key = Some (toHex (secretKey kp))\<rparr>)"
  using assms
  by (auto simp: processWalletData_def processWalletData_try_def getWalletAddressFromSeed_def
      getWalletAddressFromSeed_try_def external_def DEFAULT_WALLET_ID_def Let_def)

theorem processWalletData_seed_length_witness:
  "processWalletData stub_ton (Some \<lparr>mnemonic = Some ''abandon  ability'', address = None\<rparr>) None
     = Inl (ProcessingError InvalidSeedLength) \<and>
   message (ProcessingError InvalidSeedLength) =
     ''Error processing wallet data: Invalid seed phrase length - must be 24 words'' \<and>
   processWalletData stub_ton (Some \<lparr>mnemonic = Some seed24, address = None\<rparr>) (Some ''V4'')
     = Inr \<lparr>walletAddress = ''UQ-v4'', private_key = Some ''ab05''\<rparr>"
proof -
  let ?e1 = "\<lparr>mnemonic = Some ''abandon  ability'', address = None\<rparr>"
  let ?e2 = "\<lparr>mnemonic = Some seed24, address = None\<rparr>"
  let ?kp = "\<lparr>publicKey = [1, 2], secretKey = [171, 5]\<rparr> :: keyPair"
  let ?args = "\<lparr>workchain = 0, createPublicKey = [1, 2], walletId = 698983191\<rparr>"
  have short: "length (split_on CHR '' '' (trim ''abandon  ability'')) \<noteq> 24"
    by (simp add: trim_def is_ws_def)
  have key: "mnemonicToWalletKey stub_ton (split_on CHR '' '' (trim seed24)) = Inr ?kp"
    by (simp add: stub_ton_def seed24_def trim_def is_ws_def)
  have made: "create stub_ton WalletContractV4
      \<lparr>workchain = 0, createPublicKey = publicKey ?kp, walletId = 698983191\<rparr> =
        Inr (WalletContractV4, ?args)"
    by (simp add: stub_ton_def)
  from processWalletData_seed_length [where entry = ?e1 and m = "''abandon  ability''"
      and lib = stub_ton and version = None] short
  have a: "processWalletData stub_ton (Some ?e1) None = Inl (ProcessingError InvalidSeedLength)"
    and b: "message (ProcessingError InvalidSeedLength) =
     ''Error processing wallet data: Invalid seed phrase length - must be 24 words''"
    by simp_all
  from processWalletData_seed_length [where entry = ?e2 and m = seed24 and v = "''V4''"
      and c = WalletContractV4 and lib = stub_ton and kp = ?kp and w = "(WalletContractV4, ?args)"]
    seed24_words toLowerCase_V4 key made
  have c: "processWalletData stub_ton (Some ?e2) (Some ''V4'') =
      Inr \<lparr>walletAddress = ''UQ-v4'', private_key = Some ''ab05''\<rparr>"
    by (simp add: toHex_example stub_ton_def)
  from a b c show ?thesis by simp
qed

text \<open>
  C2: for a version whose lower-case form is \<open>v3r2\<close>, \<open>v4\<close> or \<open>v5\<close>,
  \<open>getWalletAddressFromSeed\<close> makes the contract of that version with workchain 0, the
  derived public key and wallet id 698983191, whichever of the three it is, and returns
  the address of that contract.  The result is a function of the mnemonic and of the
  lower-case form of the version alone: two calls with the same mnemonic and the same
  version (in any letter case) give the same result.  The library's key derivation is a
  function of the word list.
\<close>

theorem getWalletAddressFromSeed_fixed_parameters:
  assumes "toLowerCase v = ''v3r2'' \<and> c = WalletContractV3R2 \<or>
           toLowerCase v = ''v4'' \<and> c = WalletContractV4 \<or>
           toLowerCase v = ''v5'' \<and> c = WalletContractV5R1"
    and "mnemonicToWalletKey lib m = Inr kp"
  shows "getWalletAddressFromSeed lib m (Some v) =
           (case create lib c \<lparr>workchain = 0, createPublicKey = publicKey kp, walletId = 698983191\<rparr> of
              Inl msg \<Rightarrow> Inl (AddressError (External msg))
            | Inr w \<Rightarrow> Inr (addressToString lib w \<lparr>urlSafe = True, bounceable = False\<rparr>))
         \<and> (\<forall>v'. toLowerCase v' = toLowerCase v \<longrightarrow>
               getWalletAddressFromSeed lib m (Some v') = getWalletAddressFromSeed lib m (Some v))"
  using assms
  by (auto simp: getWalletAddressFromSeed_def getWalletAddressFromSeed_try_def external_def
      DEFAULT_WALLET_ID_def Let_def split: sum.splits)

theorem getWalletAddressFromSeed_fixed_parameters_witness:
  "getWalletAddressFromSeed stub_ton [''abandon''] (Some ''V4'') = Inr ''UQ-v4'' \<and>
   getWalletAddressFromSeed stub_ton [''abandon''] (Some ''v4'') =
     getWalletAddressFromSeed stub_ton [''abandon''] (Some ''V4'')"
proof -
  let ?kp = "\<lparr>publicKey = [1, 2], secretKey = [171, 5]\<rparr> :: keyPair"
  have key: "mnemonicToWalletKey stub_ton [''abandon''] = Inr ?kp"
    by (simp add: stub_ton_def)
  have low: "toLowerCase ''v4'' = toLowerCase ''V4''"
    by (simp add: toLowerCase_def lower_char_def char_eval)
  from getWalletAddressFromSeed_fixed_parameters [where v = "''V4''" and c = WalletContractV4
      and lib = stub_ton and m = "[''abandon'']" and kp = ?kp] toLowerCase_V4 key low
  show ?thesis
    by (simp add: stub_ton_def)
qed

text \<open>
  C9: when the key pair has been derived, \<open>getWalletAddressFromSeed\<close> throws for every
  version whose lower-case form is none of \<open>v3r2\<close>, \<open>v4\<close>, \<open>v5\<close>, and the message of the
  error is \<open>Error generating wallet address: Unsupported wallet version\<close>.
  \<open>selectWalletVersion\<close> answers every line typed with one of the three strings, and with
  \<open>v4\<close> for every line other than \<open>1\<close>, \<open>2\<close>, \<open>3\<close>; with a version from the menu that
  error is never thrown.
\<close>

theorem unsupported_version_unreachable:
  "(mnemonicToWalletKey lib m = Inr kp \<and> toLowerCase v \<notin> {''v3r2'', ''v4'', ''v5''} \<longrightarrow>
      getWalletAddressFromSeed lib m (Some v) = Inl (AddressError UnsupportedVersion) \<and>
      message (AddressError UnsupportedVersion) =
        ''Error generating wallet address: Unsupported wallet version'')
   \<and> selectWalletVersion answer \<in> {''v3r2'', ''v4'', ''v5''}
   \<and> (answer \<notin> {''1'', ''2'', ''3''} \<longrightarrow> selectWalletVersion answer = ''v4'')
   \<and> toLowerCase (selectWalletVersion answer) \<in> {''v3r2'', ''v4'', ''v5''}
   \<and> getWalletAddressFromSeed lib m (Some (selectWalletVersion answer)) \<noteq>
        Inl (AddressError UnsupportedVersion)"
  by (auto simp: getWalletAddressFromSeed_def getWalletAddressFromSeed_try_def external_def
      selectWalletVersion_def toLowerCase_def lower_char_def char_eval
      DEFAULT_WALLET_ID_def Let_def split: sum.splits)

theorem unsupported_version_unreachable_witness:
  "getWalletAddressFromSeed stub_ton [''abandon''] (Some ''V6'') =
     Inl (AddressError UnsupportedVersion) \<and>
   selectWalletVersion ''7'' = ''v4'' \<and>
   getWalletAddressFromSeed stub_ton [''abandon''] (Some (selectWalletVersion ''7'')) \<noteq>
     Inl (AddressError UnsupportedVersion)"
proof -
  let ?kp = "\<lparr>publicKey = [1, 2], secretKey = [171, 5]\<rparr> :: keyPair"
  have key: "mnemonicToWalletKey stub_ton [''abandon''] = Inr ?kp"
    by (simp add: stub_ton_def)
  have low: "toLowerCase ''V6'' \<notin> {''v3r2'', ''v4'', ''v5''}"
    by (simp add: toLowerCase_def lower_char_def char_eval)
  have ans: "''7'' \<notin> {''1'', ''2'', ''3''}"
    by simp
  from unsupported_version_unreachable [where lib = stub_ton and m = "[''abandon'']"
      and kp = ?kp and v = "''V6''" and answer = "''7''"] key low ans
  show ?thesis by (simp add: selectWalletVersion_def)
qed

section \<open>Loading the lists: the theorem\<close>

text \<open>
  C10: \<open>loadData\<close> always returns.  When the file of wallets or seeds, or the file of
  query ids, cannot be read, or when the two have different numbers of lines that are
  not blank, it prints the error and returns \<open>null\<close>.  Otherwise it returns the entries
  made of the lines that are not blank and the query ids that are not blank, which are
  equally many.
\<close>

theorem loadData_never_throws:
  "(\<forall>msg. rf (data_file platform) = Inl msg \<longrightarrow>
      loadData rf platform = ([ErrorLoading (External msg)], None))
   \<and> (\<forall>text msg. rf (data_file platform) = Inr text \<longrightarrow> rf ''query.txt'' = Inl msg \<longrightarrow>
      loadData rf platform = ([ErrorLoading (External msg)], None))
   \<and> (\<forall>text queries. rf (data_file platform) = Inr text \<longrightarrow> rf ''query.txt'' = Inr queries \<longrightarrow>
      loadData rf platform =
        (if length (nonblank_lines text) \<noteq> length (nonblank_lines queries) then
           ([ErrorLoading (Mismatch (if platform = ''paws'' then ''wallets'' else ''seeds'')
               (length (nonblank_lines text)) (length (nonblank_lines queries)))], None)
         else
           ([Loaded (length (nonblank_lines text))],
            Some (map (entry_of platform) (nonblank_lines text), nonblank_lines queries))))
   \<and> (\<forall>printed walletData queryIds.
        loadData rf platform = (printed, Some (walletData, queryIds)) \<longrightarrow>
          length walletData = length queryIds \<and>
          (\<forall>line \<in> set queryIds. trim line \<noteq> []) \<and>
          (\<exists>lines. walletData = map (entry_of platform) lines \<and>
                   (\<forall>line \<in> set lines. trim line \<noteq> [])))"
proof (intro conjI allI impI)
  fix printed walletData queryIds
  assume r: "loadData rf platform = (printed, Some (walletData, queryIds))"
  then obtain content queries where t: "rf (data_file platform) = Inr content"
    "rf ''query.txt'' = Inr queries"
    "length (nonblank_lines content) = length (nonblank_lines queries)"
    "walletData = map (entry_of platform) (nonblank_lines content)"
    "queryIds = nonblank_lines queries"
    by (auto simp: loadData_def loadData_try_def external_def data_file_def entry_of_def
        Let_def split: sum.splits if_splits)
  show "length walletData = length queryIds"
    using t by simp
  show "\<forall>line \<in> set queryIds. trim line \<noteq> []"
    using t by (simp add: nonblank_lines_def)
  show "\<exists>lines. walletData = map (entry_of platform) lines \<and> (\<forall>line \<in> set lines. trim line \<noteq> [])"
    using t by (intro exI [of _ "nonblank_lines content"]) (simp add: nonblank_lines_def)
qed (auto simp: loadData_def loadData_try_def external_def data_file_def entry_of_def Let_def)

theorem loadData_never_throws_witness:
  "loadData no_files ''blum'' = ([ErrorLoading (External ''ENOENT: no such file or directory'')], None) \<and>
   loadData stub_files ''paws'' = ([ErrorLoading (Mismatch ''wallets'' 1 2)], None) \<and>
   loadData stub_files ''blum'' =
     ([Loaded 2], Some ([\<lparr>mnemonic = Some ''a b'', address = None\<rparr>,
                         \<lparr>mnemonic = Some ''c'', address = None\<rparr>], [''q'', ''r'']))"
proof -
  have seeds: "nonblank_lines [CHR ''a'', CHR '' '', CHR ''b'', CHR 0x0A, CHR '' '', CHR 0x0A,
      CHR ''c'', CHR 0x0A] = [''a b'', ''c'']"
    by (simp add: nonblank_lines_def trim_def is_ws_def)
  have queries: "nonblank_lines [CHR ''q'', CHR 0x0A, CHR 0x0A, CHR ''r''] = [''q'', ''r'']"
    by (simp add: nonblank_lines_def trim_def is_ws_def)
  have wallets: "nonblank_lines [CHR '' '', CHR ''U'', CHR ''Q'', CHR 0x0A] = ['' UQ'']"
    by (simp add: nonblank_lines_def trim_def is_ws_def)
  from loadData_never_throws [where rf = no_files and platform = "''blum''"]
  have a: "loadData no_files ''blum'' =
      ([ErrorLoading (External ''ENOENT: no such file or directory'')], None)"
    by (simp add: no_files_def data_file_def)
  from loadData_never_throws [where rf = stub_files and platform = "''paws''"]
  have b: "loadData stub_files ''paws'' = ([ErrorLoading (Mismatch ''wallets'' 1 2)], None)"
    by (simp add: stub_files_def data_file_def wallets queries)
  from loadData_never_throws [where rf = stub_files and platform = "''blum''"]
  have c: "loadData stub_files ''blum'' =
     ([Loaded 2], Some ([\<lparr>mnemonic = Some ''a b'', address = None\<rparr>,
                         \<lparr>mnemonic = Some ''c'', address = None\<rparr>], [''q'', ''r'']))"
    by (simp add: stub_files_def data_file_def entry_of_def seeds queries)
  from a b c show ?thesis by simp
qed

section \<open>Batch processing: the theorems\<close>

subsection \<open>One iteration\<close>

lemma grown_refl: "grown i st st []"
  by (simp add: grown_def)

lemma grown_trans: "grown i st st1 a \<Longrightarrow> grown i st1 st2 b \<Longrightarrow> grown i st st2 (a @ b)"
  by (auto simp: grown_def)

lemma post_simps [simp]:
  "post (Normal x s) N C T K = N x s"
  "post (Continue s) N C T K = C s"
  "post (Throw e s) N C T K = T s"
  "post (Crash msg) N C T K = K"
  by (simp_all add: post_def)

lemma post_bind [simp]:
  "post (bind_flow m k) N C T K = post m (\<lambda>x s. post (k x s) N C T K) C T K"
  by (cases m) (simp_all add: post_def bind_flow_def)

lemma post_invoke:
  assumes "\<And>x st'. unchanged i st st'
             (Called svc m (if awaited then (if t x then Truthy else Falsy) else Unawaited)) \<Longrightarrow>
             N x st'"
    and "\<And>st'. unchanged i st st' (Called svc m Threw) \<Longrightarrow> T st'"
    and "\<And>msg. \<not> awaited \<Longrightarrow> fst (f (world st)) = Rejected msg \<Longrightarrow> K"
  shows "post (invoke i svc m awaited t f st) N C T K"
proof (cases "f (world st)")
  case (Pair r w')
  show ?thesis
  proof (cases r)
    case (Returned x)
    with Pair
      assms(1) [of "emit i (Called svc m (if awaited then (if t x then Truthy else Falsy)
                                          else Unawaited)) (st\<lparr>world := w'\<rparr>)" x]
    show ?thesis
      by (simp add: invoke_def unchanged_def emit_def)
  next
    case (Thrown msg)
    with Pair assms(2) [of "emit i (Called svc m Threw) (st\<lparr>world := w'\<rparr>)"]
    show ?thesis
      by (simp add: invoke_def unchanged_def emit_def)
  next
    case (Rejected msg)
    with Pair assms(2) [of "emit i (Called svc m Threw) (st\<lparr>world := w'\<rparr>)"] assms(3) [of msg]
    show ?thesis
      by (simp add: invoke_def unchanged_def emit_def)
  qed
qed

lemmas shape_defs = service_of_def new_call_def token_call_def init_call_def
  setup_done_def setup_continued_def setup_thrown_def

lemmas step_defs = grown_def unchanged_def countFail_def countSuccess_def emit_def

lemma post_mono:
  assumes "post fl N C T K"
    and "\<And>x s. N x s \<Longrightarrow> N' x s" and "\<And>s. C s \<Longrightarrow> C' s" and "\<And>s. T s \<Longrightarrow> T' s"
    and "K \<Longrightarrow> K'"
  shows "post fl N' C' T' K'"
  using assms by (cases fl) (simp_all add: post_def)

lemma setup_paws_post:
  "post (setup_paws env queryIds walletData i st)
     (\<lambda>(svc, pw) st'. svc = service_of ''paws'' \<and>
        (\<exists>s\<in>set (setup_done ''paws'' (queryIds ! i)
                   (wallet_for lib version ''paws'' (nth_opt walletData i))). grown i st st' s))
     (\<lambda>st'. \<exists>s\<in>set (setup_continued ''paws'' (queryIds ! i)
                       (wallet_for lib version ''paws'' (nth_opt walletData i))). grown i st st' s)
     (\<lambda>st'. \<exists>s\<in>set (setup_thrown ''paws'' (queryIds ! i)
                       (wallet_for lib version ''paws'' (nth_opt walletData i))). grown i st st' s)
     K"
  unfolding setup_paws_def wallet_for_def Let_def
  by (intro conjI impI allI post_invoke
      | simp split: option.split add: shape_defs step_defs)+

lemma setup_seed_post:
  assumes "platform \<noteq> ''paws''"
  shows "post (setup_seed env lib queryIds walletData version platform i st)
     (\<lambda>(svc, pw) st'. svc = service_of platform \<and>
        (\<exists>s\<in>set (setup_done platform (queryIds ! i)
                   (wallet_for lib version platform (nth_opt walletData i))). grown i st st' s))
     (\<lambda>st'. \<exists>s\<in>set (setup_continued platform (queryIds ! i)
                       (wallet_for lib version platform (nth_opt walletData i))). grown i st st' s)
     (\<lambda>st'. \<exists>s\<in>set (setup_thrown platform (queryIds ! i)
                       (wallet_for lib version platform (nth_opt walletData i))). grown i st st' s)
     True"
proof (cases "processWalletData lib (nth_opt walletData i) version")
  case (Inl e)
  with assms show ?thesis
    by (simp add: setup_seed_def wallet_for_def setup_thrown_def grown_def)
next
  case (Inr pw)
  with assms have pwo: "wallet_for lib version platform (nth_opt walletData i) = Some pw"
    by (simp add: wallet_for_def)
  consider "platform = ''tsubasa''" | "platform = ''yescoin''"
    | "platform \<noteq> ''tsubasa''" "platform \<noteq> ''yescoin''"
    by blast
  then show ?thesis
  proof cases
    case 1
    with Inr show ?thesis
      unfolding setup_seed_def pwo
      by (intro conjI impI allI post_invoke
          | simp split: option.split add: shape_defs step_defs)+
  next
    case 2
    with Inr show ?thesis
      unfolding setup_seed_def pwo
      by (intro conjI impI allI post_invoke
          | simp split: option.split add: shape_defs step_defs)+
  next
    case 3
    with Inr assms show ?thesis
      unfolding setup_seed_def pwo
      by (intro conjI impI allI post_invoke
          | simp split: option.split add: shape_defs step_defs)+
  qed
qed

lemma perform_post:
  "post (perform env action platform i (service_of platform) st)
     (\<lambda>u st'. \<exists>s\<in>set (action_done platform action). grown i st st' s)
     (\<lambda>st'. False)
     (\<lambda>st'. \<exists>s\<in>set (action_thrown platform action). grown i st st' s)
     K"
proof (cases "platform = ''blum''")
  case True
  then show ?thesis
    unfolding perform_def Let_def
    by (intro conjI impI allI post_invoke
        | simp split: option.split add: action_done_def action_thrown_def step_defs)+
next
  case False
  then show ?thesis
    unfolding perform_def Let_def
    by (intro conjI impI allI post_invoke
        | simp split: option.split add: action_done_def action_thrown_def step_defs)+
qed


subsection \<open>The delay\<close>

lemma excess_le: "n < 2 ^ 53 * 2 ^ j \<Longrightarrow> excess n \<le> j"
proof (induction j arbitrary: n)
  case 0
  then show ?case by (simp add: excess.simps [of n])
next
  case (Suc j)
  show ?case
  proof (cases "n < 2 ^ 53")
    case True
    then show ?thesis by (simp add: excess.simps [of n])
  next
    case False
    from Suc.prems have "n < (2 ^ 53 * 2 ^ j) * 2" by (simp add: mult_ac)
    then have "n div 2 < 2 ^ 53 * 2 ^ j" by (rule less_mult_imp_div_less)
    from Suc.IH [OF this] False show ?thesis by (simp add: excess.simps [of n])
  qed
qed

lemma round53_le:
  assumes "0 < excess n"
  shows "round53 n \<le> n + 2 ^ (excess n - 1)"
proof -
  let ?s = "excess n"
  let ?m = "n div 2 ^ ?s"
  let ?r = "n mod 2 ^ ?s"
  have n: "n = ?m * 2 ^ ?s + ?r" by (simp only: div_mult_mod_eq)
  have half: "(2::nat) ^ ?s = 2 ^ (?s - 1) + 2 ^ (?s - 1)"
    using assms by (cases ?s) simp_all
  show ?thesis
  proof (cases "2 ^ (?s - 1) < ?r \<or> (?r = 2 ^ (?s - 1) \<and> odd ?m)")
    case True
    then have up: "round53 n = (?m + 1) * 2 ^ ?s"
      using assms by (simp add: round53_def Let_def)
    from True have "2 ^ (?s - 1) \<le> ?r" by auto
    then have "(?m + 1) * 2 ^ ?s \<le> ?m * 2 ^ ?s + ?r + 2 ^ (?s - 1)"
      using half by (simp add: algebra_simps)
    with up n show ?thesis by simp
  next
    case False
    then have "round53 n = ?m * 2 ^ ?s"
      using assms by (simp add: round53_def Let_def)
    also have "\<dots> \<le> n" by simp
    finally show ?thesis by simp
  qed
qed

lemma round53_product: "round53 (mathRandom k * 2001) < 2001 * 2 ^ 53"
proof -
  let ?n = "mathRandom k * 2001"
  have "mathRandom k < 2 ^ 53" by (simp add: mathRandom_def)
  then have "mathRandom k + 1 \<le> 2 ^ 53" by simp
  then have "(mathRandom k + 1) * 2001 \<le> 2 ^ 53 * 2001"
    by (rule mult_le_mono1)
  then have n: "?n + 2001 \<le> 2001 * 2 ^ 53" by (simp add: algebra_simps)
  show ?thesis
  proof (cases "excess ?n = 0")
    case True
    then have "round53 ?n = ?n" by (simp add: round53_def Let_def)
    with n show ?thesis by simp
  next
    case False
    have "?n < 2 ^ 53 * 2 ^ 11" using n by simp
    then have "excess ?n \<le> 11" by (rule excess_le)
    then have "excess ?n - 1 \<le> 10" by simp
    then have "(2::nat) ^ (excess ?n - 1) \<le> 2 ^ 10"
      by (intro power_increasing) simp_all
    with round53_le [of ?n] False have "round53 ?n \<le> ?n + 2 ^ 10" by simp
    with n show ?thesis by simp
  qed
qed

lemma delay_ms_bounds: "1000 \<le> delay_ms k \<and> delay_ms k \<le> 3000"
proof -
  from round53_product [of k] have "round53 (mathRandom k * 2001) div 2 ^ 53 < 2001"
    by (simp add: less_mult_imp_div_less)
  then show ?thesis by (simp add: delay_ms_def)
qed

lemma delay_grown:
  "\<exists>d. delays (i < n - 1) d \<and> grown i st (delay env n i st) d"
proof (cases "i < n - 1")
  case True
  obtain k w' where r: "random env (world st) = (k, w')"
    by (cases "random env (world st)")
  have "delays (i < n - 1) [Slept (delay_ms k)]"
    using True delay_ms_bounds [of k] by (simp add: delays_def)
  moreover have "grown i st (delay env n i st) [Slept (delay_ms k)]"
    using True r by (simp add: delay_def grown_def emit_def)
  ultimately show ?thesis by blast
next
  case False
  then show ?thesis
    by (intro exI [of _ "[]"]) (simp add: delays_def delay_def grown_def)
qed

subsection \<open>The block of an iteration\<close>

lemma blocks_thrown:
  "s \<in> set (setup_thrown platform q pwo) \<Longrightarrow>
     Processing # s @ [Counted Failure] \<in> set (blocks platform action q pwo d)"
  by (simp add: blocks_def)

lemma blocks_continued:
  "s \<in> set (setup_continued platform q pwo) \<Longrightarrow>
     Processing # s \<in> set (blocks platform action q pwo d)"
  by (simp add: blocks_def)

lemma blocks_action_thrown:
  "s \<in> set (setup_done platform q pwo) \<Longrightarrow> t \<in> set (action_thrown platform action) \<Longrightarrow>
     Processing # s @ t @ [Counted Failure] \<in> set (blocks platform action q pwo d)"
  by (auto simp: blocks_def)

lemma blocks_done:
  "s \<in> set (setup_done platform q pwo) \<Longrightarrow> t \<in> set (action_done platform action) \<Longrightarrow>
     Processing # s @ t @ d \<in> set (blocks platform action q pwo d)"
  by (auto simp: blocks_def)

lemma delays_ex: "\<exists>d. delays another d"
  by (cases another) (auto simp: delays_def)

lemma grown_Processing: "grown i st (emit i Processing st) [Processing]"
  by (simp add: grown_def emit_def)

lemma grown_countFail: "grown i st (countFail i st) [Counted Failure]"
  by (simp add: grown_def countFail_def emit_def)

lemma block_thrown:
  assumes "s \<in> set (setup_thrown platform (queryIds ! i)
                     (wallet_for lib version platform (nth_opt walletData i)))"
    and "grown i (emit i Processing st) st' s"
  shows "block_of lib version walletData platform action queryIds i st (countFail i st')"
proof -
  obtain d where d: "delays (i < length queryIds - 1) d"
    using delays_ex by blast
  have "grown i st (countFail i st') ([Processing] @ s @ [Counted Failure])"
    by (intro grown_trans [OF grown_Processing] grown_trans [OF assms(2)] grown_countFail)
  with d blocks_thrown [OF assms(1)] show ?thesis
    unfolding block_of_def valid_block_def by fastforce
qed

lemma block_continued:
  assumes "s \<in> set (setup_continued platform (queryIds ! i)
                     (wallet_for lib version platform (nth_opt walletData i)))"
    and "grown i (emit i Processing st) st' s"
  shows "block_of lib version walletData platform action queryIds i st st'"
proof -
  obtain d where d: "delays (i < length queryIds - 1) d"
    using delays_ex by blast
  have "grown i st st' ([Processing] @ s)"
    by (intro grown_trans [OF grown_Processing] assms(2))
  with d blocks_continued [OF assms(1)] show ?thesis
    unfolding block_of_def valid_block_def by fastforce
qed

lemma block_action_thrown:
  assumes "s \<in> set (setup_done platform (queryIds ! i)
                     (wallet_for lib version platform (nth_opt walletData i)))"
    and "grown i (emit i Processing st) st1 s"
    and "t \<in> set (action_thrown platform action)"
    and "grown i st1 st' t"
  shows "block_of lib version walletData platform action queryIds i st (countFail i st')"
proof -
  obtain d where d: "delays (i < length queryIds - 1) d"
    using delays_ex by blast
  have "grown i st (countFail i st') ([Processing] @ s @ t @ [Counted Failure])"
    by (intro grown_trans [OF grown_Processing] grown_trans [OF assms(2)]
        grown_trans [OF assms(4)] grown_countFail)
  with d blocks_action_thrown [OF assms(1) assms(3)] show ?thesis
    unfolding block_of_def valid_block_def by fastforce
qed

lemma block_done:
  assumes "s \<in> set (setup_done platform (queryIds ! i)
                     (wallet_for lib version platform (nth_opt walletData i)))"
    and "grown i (emit i Processing st) st1 s"
    and "t \<in> set (action_done platform action)"
    and "grown i st1 st2 t"
  shows "block_of lib version walletData platform action queryIds i st
           (delay env (length queryIds) i st2)"
proof -
  obtain d where d: "delays (i < length queryIds - 1) d"
    and g: "grown i st2 (delay env (length queryIds) i st2) d"
    using delay_grown by blast
  have "grown i st (delay env (length queryIds) i st2) ([Processing] @ s @ t @ d)"
    by (intro grown_trans [OF grown_Processing] grown_trans [OF assms(2)]
        grown_trans [OF assms(4)] g)
  with d blocks_done [OF assms(1) assms(3)] show ?thesis
    unfolding block_of_def valid_block_def by fastforce
qed

lemma iteration_flow:
  assumes "post fl (\<lambda>u. P) P (\<lambda>s. P (countFail i s)) True"
    and "(case fl of Normal u st' \<Rightarrow> Inr st' | Continue st' \<Rightarrow> Inr st'
          | Throw e st' \<Rightarrow> Inr (countFail i st') | Crash msg \<Rightarrow> Inl (UnhandledRejection msg)) =
         Inr r"
  shows "P r"
  using assms by (cases fl) (auto simp: post_def)

lemma iteration_block:
  assumes "iteration env lib action queryIds walletData version platform i st = Inr st'"
  shows "block_of lib version walletData platform action queryIds i st st'"
proof -
  let ?st0 = "emit i Processing st"
  let ?pwo = "wallet_for lib version platform (nth_opt walletData i)"
  let ?B = "block_of lib version walletData platform action queryIds i st"
  let ?prepared = "if platform = ''paws'' then setup_paws env queryIds walletData i ?st0
                else setup_seed env lib queryIds walletData version platform i ?st0"
  have prep: "post ?prepared
     (\<lambda>(svc, pw) st'. svc = service_of platform \<and>
        (\<exists>s\<in>set (setup_done platform (queryIds ! i) ?pwo). grown i ?st0 st' s))
     (\<lambda>st'. \<exists>s\<in>set (setup_continued platform (queryIds ! i) ?pwo). grown i ?st0 st' s)
     (\<lambda>st'. \<exists>s\<in>set (setup_thrown platform (queryIds ! i) ?pwo). grown i ?st0 st' s)
     True"
    using setup_paws_post [of env queryIds walletData i ?st0 lib version True]
      setup_seed_post [of platform env lib queryIds walletData version i ?st0]
    by (cases "platform = ''paws''") simp_all
  have act: "post (perform env action platform i (service_of platform) st1)
       (\<lambda>u st2. ?B (delay env (length queryIds) i st2)) ?B (\<lambda>s. ?B (countFail i s)) True"
    if "s \<in> set (setup_done platform (queryIds ! i) ?pwo)" and "grown i ?st0 st1 s" for s st1
    by (rule post_mono [OF perform_post])
      (use that in \<open>auto intro: block_done block_action_thrown\<close>)
  have "post ?prepared
     (\<lambda>(svc, pw) st1. post (perform env action platform i svc st1)
        (\<lambda>u st2. ?B (delay env (length queryIds) i st2)) ?B (\<lambda>s. ?B (countFail i s)) True)
     ?B (\<lambda>s. ?B (countFail i s)) True"
    by (rule post_mono [OF prep]) (use act in \<open>auto intro: block_continued block_thrown\<close>)
  then have "post
     (bind_flow
        (bind_flow ?prepared (\<lambda>(service, processedWallet) st1. perform env action platform i service st1))
        (\<lambda>u st2. Normal () (delay env (length queryIds) i st2)))
     (\<lambda>u. ?B) ?B (\<lambda>s. ?B (countFail i s)) True"
    by (simp add: case_prod_unfold)
  then show ?thesis
    by (rule iteration_flow [where P = ?B]) (use assms in \<open>simp add: iteration_def\<close>)
qed


subsection \<open>The loop\<close>

lemma for_loop_invariant:
  assumes "for_loop body n i st = Inr r" and "P i st" and "i \<le> n"
    and "\<And>k s s'. i \<le> k \<Longrightarrow> k < n \<Longrightarrow> P k s \<Longrightarrow> body k s = Inr s' \<Longrightarrow> P (Suc k) s'"
  shows "P n r"
  using assms
proof (induction body n i st rule: for_loop.induct)
  case (1 body n i st)
  show ?case
  proof (cases "i < n")
    case True
    from "1.prems"(1) True obtain st' where st': "body i st = Inr st'"
      and rest: "for_loop body n (Suc i) st' = Inr r"
      by (simp add: for_loop.simps [of body n i] split: sum.splits)
    show ?thesis
    proof (rule "1.IH" [OF True st' rest])
      show "P (Suc i) st'" using "1.prems" True st' by simp
      show "Suc i \<le> n" using True by simp
      show "\<And>k s s'. Suc i \<le> k \<Longrightarrow> k < n \<Longrightarrow> P k s \<Longrightarrow> body k s = Inr s' \<Longrightarrow> P (Suc k) s'"
        using "1.prems"(4) by simp
    qed
  next
    case False
    with "1.prems" have "i = n" "r = st" by (simp_all add: for_loop.simps [of body n i])
    with "1.prems"(2) show ?thesis by simp
  qed
qed


lemma steps_of_laid_out: "steps_of j (laid_out B k) = (if j < k then B j else [])"
  by (induction k) (auto simp: laid_out_def steps_of_def comp_def filter_empty_conv less_Suc_eq)

lemma sorted_laid_out: "sorted (map fst (laid_out B k))"
  by (induction k) (auto simp: laid_out_def sorted_append comp_def map_replicate_const)

lemma fst_laid_out: "e \<in> set (laid_out B k) \<Longrightarrow> fst e < k"
  by (auto simp: laid_out_def)

lemma laid_out_Suc: "laid_out B (Suc k) = laid_out B k @ map (Pair k) (B k)"
  by (simp add: laid_out_def)

lemma laid_out_cong: "(\<And>j. j < k \<Longrightarrow> B j = B' j) \<Longrightarrow> laid_out B k = laid_out B' k"
  unfolding laid_out_def by (intro arg_cong [where f = concat] map_cong) auto

lemma run_inv_step:
  assumes "run_inv lib version walletData platform action queryIds k st"
    and "iteration env lib action queryIds walletData version platform k st = Inr st'"
  shows "run_inv lib version walletData platform action queryIds (Suc k) st'"
proof -
  let ?pwo = "\<lambda>j. wallet_for lib version platform (nth_opt walletData j)"
  from assms(1) obtain B where B: "trace st = laid_out B k"
    "\<forall>j<k. valid_block platform action (queryIds ! j) (?pwo j) (j < length queryIds - 1) (B j)"
    "successCount st = (\<Sum>j<k. count_list (B j) (Counted Success))"
    "failCount st = (\<Sum>j<k. count_list (B j) (Counted Failure))"
    "totalBalance st \<noteq> 0 \<longrightarrow> (\<exists>j<k. \<exists>svc. Called svc GetBalance Truthy \<in> set (B j))"
    unfolding run_inv_def by blast
  from iteration_block [OF assms(2)]
  obtain b where b:
    "valid_block platform action (queryIds ! k) (?pwo k) (k < length queryIds - 1) b"
    "grown k st st' b"
    unfolding block_of_def by blast
  let ?B = "B(k := b)"
  have same: "laid_out ?B k = laid_out B k"
    by (rule laid_out_cong) simp
  have "trace st' = laid_out ?B (Suc k)"
    using b(2) B(1) same by (simp add: grown_def laid_out_Suc)
  moreover have "\<forall>j<Suc k. valid_block platform action (queryIds ! j) (?pwo j)
      (j < length queryIds - 1) (?B j)"
    using B(2) b(1) by (simp add: less_Suc_eq)
  moreover have "successCount st' = (\<Sum>j<Suc k. count_list (?B j) (Counted Success))"
    using b(2) B(3) by (simp add: grown_def)
  moreover have "failCount st' = (\<Sum>j<Suc k. count_list (?B j) (Counted Failure))"
    using b(2) B(4) by (simp add: grown_def)
  moreover have "totalBalance st' \<noteq> 0 \<longrightarrow>
      (\<exists>j<Suc k. \<exists>svc. Called svc GetBalance Truthy \<in> set (?B j))"
  proof
    assume nz: "totalBalance st' \<noteq> 0"
    show "\<exists>j<Suc k. \<exists>svc. Called svc GetBalance Truthy \<in> set (?B j)"
    proof (cases "totalBalance st' = totalBalance st")
      case True
      with nz B(5) obtain j svc where "j < k" "Called svc GetBalance Truthy \<in> set (B j)"
        by auto
      then show ?thesis by (intro exI [of _ j]) auto
    next
      case False
      with b(2) obtain svc where "Called svc GetBalance Truthy \<in> set b"
        by (auto simp: grown_def)
      then show ?thesis by (intro exI [of _ k]) auto
    qed
  qed
  ultimately show ?thesis
    unfolding run_inv_def by blast
qed

lemma run_inv_final:
  assumes "for_loop (iteration env lib action queryIds walletData version platform)
             (length queryIds) 0
             \<lparr>totalBalance = 0, successCount = 0, failCount = 0, trace = [], world = w\<rparr> = Inr r"
  shows "run_inv lib version walletData platform action queryIds (length queryIds) r"
proof (rule for_loop_invariant [OF assms,
      where P = "run_inv lib version walletData platform action queryIds"])
  show "run_inv lib version walletData platform action queryIds 0
     \<lparr>totalBalance = 0, successCount = 0, failCount = 0, trace = [], world = w\<rparr>"
    by (simp add: run_inv_def laid_out_def)
qed (simp_all add: run_inv_step)

subsection \<open>What every iteration satisfies\<close>

lemmas block_defs = blocks_def delays_def action_done_def action_thrown_def shape_defs

lemma valid_block_ranks:
  assumes "valid_block platform action q pwo another b"
  shows "sorted_wrt (<) (map rank b)"
proof -
  from assms obtain d where d: "delays another d"
    and b: "b \<in> set (blocks platform action q pwo d)"
    unfolding valid_block_def by blast
  have "\<forall>b\<in>set (blocks platform action q pwo d). sorted_wrt (<) (map rank b)"
  proof -
    consider "platform = ''paws''" | "platform = ''tsubasa''" | "platform = ''yescoin''"
      | "platform = ''blum''"
      | "platform \<noteq> ''paws''" "platform \<noteq> ''tsubasa''" "platform \<noteq> ''yescoin''" "platform \<noteq> ''blum''"
      by blast
    then show ?thesis
    proof cases
      case 1
      with d show ?thesis
        by (cases "action = ''1''"; cases "action = ''2''"; cases another; cases pwo)
          (simp_all add: block_defs, (use d in \<open>auto simp: block_defs\<close>)?)
    next
      case 2
      with d show ?thesis
        by (cases "action = ''1''"; cases "action = ''2''"; cases another; cases pwo)
          (simp_all add: block_defs, (use d in \<open>auto simp: block_defs\<close>)?)
    next
      case 3
      with d show ?thesis
        by (cases "action = ''1''"; cases "action = ''2''"; cases another; cases pwo)
          (simp_all add: block_defs, (use d in \<open>auto simp: block_defs\<close>)?)
    next
      case 4
      with d show ?thesis
        by (cases "action = ''1''"; cases "action = ''2''"; cases another; cases pwo)
          (simp_all add: block_defs, (use d in \<open>auto simp: block_defs\<close>)?)
    next
      case 5
      with d show ?thesis
        by (cases "action = ''1''"; cases "action = ''2''"; cases another; cases pwo)
          (simp_all add: block_defs, (use d in \<open>auto simp: block_defs\<close>)?)
    qed
  qed
  with b show ?thesis by blast
qed

lemma valid_block_order:
  assumes "valid_block platform action q pwo another b"
  shows "((\<exists>s\<in>set b. is_operation s) \<longrightarrow>
           (\<exists>s\<in>set b. initialised s) \<and> (platform \<noteq> ''tsubasa'' \<longrightarrow> (\<exists>s\<in>set b. token_obtained s)))
         \<and> (platform = ''tsubasa'' \<longrightarrow> (\<forall>s\<in>set b. \<not> is_login s))
         \<and> ((\<exists>s\<in>set b. no_token s) \<longrightarrow>
              Counted Failure \<in> set b \<and> Counted Success \<notin> set b \<and>
              (\<forall>s\<in>set b. \<not> is_init s \<and> \<not> is_operation s))"
proof -
  from assms obtain d where d: "delays another d"
    and b: "b \<in> set (blocks platform action q pwo d)"
    unfolding valid_block_def by blast
  have "\<forall>b\<in>set (blocks platform action q pwo d). ((\<exists>s\<in>set b. is_operation s) \<longrightarrow>
           (\<exists>s\<in>set b. initialised s) \<and> (platform \<noteq> ''tsubasa'' \<longrightarrow> (\<exists>s\<in>set b. token_obtained s)))
         \<and> (platform = ''tsubasa'' \<longrightarrow> (\<forall>s\<in>set b. \<not> is_login s))
         \<and> ((\<exists>s\<in>set b. no_token s) \<longrightarrow>
              Counted Failure \<in> set b \<and> Counted Success \<notin> set b \<and>
              (\<forall>s\<in>set b. \<not> is_init s \<and> \<not> is_operation s))"
  proof -
    consider "platform = ''paws''" | "platform = ''tsubasa''" | "platform = ''yescoin''"
      | "platform = ''blum''"
      | "platform \<noteq> ''paws''" "platform \<noteq> ''tsubasa''" "platform \<noteq> ''yescoin''" "platform \<noteq> ''blum''"
      by blast
    then show ?thesis
    proof cases
      case 1
      with d show ?thesis
        by (cases "action = ''1''"; cases "action = ''2''"; cases another; cases pwo)
          (simp_all add: block_defs, (use d in \<open>auto simp: block_defs\<close>)?)
    next
      case 2
      with d show ?thesis
        by (cases "action = ''1''"; cases "action = ''2''"; cases another; cases pwo)
          (simp_all add: block_defs, (use d in \<open>auto simp: block_defs\<close>)?)
    next
      case 3
      with d show ?thesis
        by (cases "action = ''1''"; cases "action = ''2''"; cases another; cases pwo)
          (simp_all add: block_defs, (use d in \<open>auto simp: block_defs\<close>)?)
    next
      case 4
      with d show ?thesis
        by (cases "action = ''1''"; cases "action = ''2''"; cases another; cases pwo)
          (simp_all add: block_defs, (use d in \<open>auto simp: block_defs\<close>)?)
    next
      case 5
      with d show ?thesis
        by (cases "action = ''1''"; cases "action = ''2''"; cases another; cases pwo)
          (simp_all add: block_defs, (use d in \<open>auto simp: block_defs\<close>)?)
    qed
  qed
  with b show ?thesis by blast
qed

lemma valid_block_failed:
  assumes "valid_block platform action q pwo another b"
  shows "\<forall>s\<in>set b. failed s \<longrightarrow>
           Counted Failure \<in> set b \<and> Counted Success \<notin> set b \<and>
           (\<forall>s'\<in>set b. rank s' \<le> rank s \<or> 6 \<le> rank s')"
proof -
  from assms obtain d where d: "delays another d"
    and b: "b \<in> set (blocks platform action q pwo d)"
    unfolding valid_block_def by blast
  have "\<forall>b\<in>set (blocks platform action q pwo d). \<forall>s\<in>set b. failed s \<longrightarrow>
           Counted Failure \<in> set b \<and> Counted Success \<notin> set b \<and>
           (\<forall>s'\<in>set b. rank s' \<le> rank s \<or> 6 \<le> rank s')"
  proof -
    consider "platform = ''paws''" | "platform = ''tsubasa''" | "platform = ''yescoin''"
      | "platform = ''blum''"
      | "platform \<noteq> ''paws''" "platform \<noteq> ''tsubasa''" "platform \<noteq> ''yescoin''" "platform \<noteq> ''blum''"
      by blast
    then show ?thesis
    proof cases
      case 1
      with d show ?thesis
        by (cases "action = ''1''"; cases "action = ''2''"; cases another; cases pwo)
          (simp_all add: block_defs, (use d in \<open>auto simp: block_defs\<close>)?)
    next
      case 2
      with d show ?thesis
        by (cases "action = ''1''"; cases "action = ''2''"; cases another; cases pwo)
          (simp_all add: block_defs, (use d in \<open>auto simp: block_defs\<close>)?)
    next
      case 3
      with d show ?thesis
        by (cases "action = ''1''"; cases "action = ''2''"; cases another; cases pwo)
          (simp_all add: block_defs, (use d in \<open>auto simp: block_defs\<close>)?)
    next
      case 4
      with d show ?thesis
        by (cases "action = ''1''"; cases "action = ''2''"; cases another; cases pwo)
          (simp_all add: block_defs, (use d in \<open>auto simp: block_defs\<close>)?)
    next
      case 5
      with d show ?thesis
        by (cases "action = ''1''"; cases "action = ''2''"; cases another; cases pwo)
          (simp_all add: block_defs, (use d in \<open>auto simp: block_defs\<close>)?)
    qed
  qed
  with b show ?thesis by blast
qed

lemma valid_block_counted:
  assumes "valid_block platform action q pwo another b"
  shows "count_list b (Counted Success) + count_list b (Counted Failure) = 1"
proof -
  from assms obtain d where d: "delays another d"
    and b: "b \<in> set (blocks platform action q pwo d)"
    unfolding valid_block_def by blast
  have "\<forall>b\<in>set (blocks platform action q pwo d). count_list b (Counted Success) + count_list b (Counted Failure) = 1"
  proof -
    consider "platform = ''paws''" | "platform = ''tsubasa''" | "platform = ''yescoin''"
      | "platform = ''blum''"
      | "platform \<noteq> ''paws''" "platform \<noteq> ''tsubasa''" "platform \<noteq> ''yescoin''" "platform \<noteq> ''blum''"
      by blast
    then show ?thesis
    proof cases
      case 1
      with d show ?thesis
        by (cases "action = ''1''"; cases "action = ''2''"; cases another; cases pwo)
          (simp_all add: block_defs, (use d in \<open>auto simp: block_defs\<close>)?)
    next
      case 2
      with d show ?thesis
        by (cases "action = ''1''"; cases "action = ''2''"; cases another; cases pwo)
          (simp_all add: block_defs, (use d in \<open>auto simp: block_defs\<close>)?)
    next
      case 3
      with d show ?thesis
        by (cases "action = ''1''"; cases "action = ''2''"; cases another; cases pwo)
          (simp_all add: block_defs, (use d in \<open>auto simp: block_defs\<close>)?)
    next
      case 4
      with d show ?thesis
        by (cases "action = ''1''"; cases "action = ''2''"; cases another; cases pwo)
          (simp_all add: block_defs, (use d in \<open>auto simp: block_defs\<close>)?)
    next
      case 5
      with d show ?thesis
        by (cases "action = ''1''"; cases "action = ''2''"; cases another; cases pwo)
          (simp_all add: block_defs, (use d in \<open>auto simp: block_defs\<close>)?)
    qed
  qed
  with b show ?thesis by blast
qed


lemma valid_block_balance:
  assumes "valid_block platform action q pwo another b"
  shows "\<forall>svc. Called svc GetBalance Truthy \<in> set b \<longrightarrow>
           action = ''1'' \<and> platform = ''blum'' \<and> svc = BlumService \<and>
           Called BlumService ConnectWallet Truthy \<in> set b \<and> Counted Success \<in> set b"
proof -
  from assms obtain d where d: "delays another d"
    and b: "b \<in> set (blocks platform action q pwo d)"
    unfolding valid_block_def by blast
  have "\<forall>b\<in>set (blocks platform action q pwo d). \<forall>svc. Called svc GetBalance Truthy \<in> set b \<longrightarrow>
           action = ''1'' \<and> platform = ''blum'' \<and> svc = BlumService \<and>
           Called BlumService ConnectWallet Truthy \<in> set b \<and> Counted Success \<in> set b"
  proof -
    consider "platform = ''paws''" | "platform = ''tsubasa''" | "platform = ''yescoin''"
      | "platform = ''blum''"
      | "platform \<noteq> ''paws''" "platform \<noteq> ''tsubasa''" "platform \<noteq> ''yescoin''" "platform \<noteq> ''blum''"
      by blast
    then show ?thesis
    proof cases
      case 1
      with d show ?thesis
        by (cases "action = ''1''"; cases "action = ''2''"; cases another; cases pwo)
          (simp_all add: block_defs, (use d in \<open>auto simp: block_defs\<close>)?)
    next
      case 2
      with d show ?thesis
        by (cases "action = ''1''"; cases "action = ''2''"; cases another; cases pwo)
          (simp_all add: block_defs, (use d in \<open>auto simp: block_defs\<close>)?)
    next
      case 3
      with d show ?thesis
        by (cases "action = ''1''"; cases "action = ''2''"; cases another; cases pwo)
          (simp_all add: block_defs, (use d in \<open>auto simp: block_defs\<close>)?)
    next
      case 4
      with d show ?thesis
        by (cases "action = ''1''"; cases "action = ''2''"; cases another; cases pwo)
          (simp_all add: block_defs, (use d in \<open>auto simp: block_defs\<close>)?)
    next
      case 5
      with d show ?thesis
        by (cases "action = ''1''"; cases "action = ''2''"; cases another; cases pwo)
          (simp_all add: block_defs, (use d in \<open>auto simp: block_defs\<close>)?)
    qed
  qed
  with b show ?thesis by blast
qed

lemma valid_block_slept:
  assumes "valid_block platform action q pwo another b"
  shows "\<forall>ms. Slept ms \<in> set b \<longrightarrow> another \<and> 1000 \<le> ms \<and> ms \<le> 3000 \<and> last b = Slept ms"
proof -
  from assms obtain d where d: "delays another d"
    and b: "b \<in> set (blocks platform action q pwo d)"
    unfolding valid_block_def by blast
  have "\<forall>b\<in>set (blocks platform action q pwo d). \<forall>ms. Slept ms \<in> set b \<longrightarrow> another \<and> 1000 \<le> ms \<and> ms \<le> 3000 \<and> last b = Slept ms"
  proof -
    consider "platform = ''paws''" | "platform = ''tsubasa''" | "platform = ''yescoin''"
      | "platform = ''blum''"
      | "platform \<noteq> ''paws''" "platform \<noteq> ''tsubasa''" "platform \<noteq> ''yescoin''" "platform \<noteq> ''blum''"
      by blast
    then show ?thesis
    proof cases
      case 1
      with d show ?thesis
        by (cases "action = ''1''"; cases "action = ''2''"; cases another; cases pwo)
          (simp_all add: block_defs, (use d in \<open>auto simp: block_defs\<close>)?)
    next
      case 2
      with d show ?thesis
        by (cases "action = ''1''"; cases "action = ''2''"; cases another; cases pwo)
          (simp_all add: block_defs, (use d in \<open>auto simp: block_defs\<close>)?)
    next
      case 3
      with d show ?thesis
        by (cases "action = ''1''"; cases "action = ''2''"; cases another; cases pwo)
          (simp_all add: block_defs, (use d in \<open>auto simp: block_defs\<close>)?)
    next
      case 4
      with d show ?thesis
        by (cases "action = ''1''"; cases "action = ''2''"; cases another; cases pwo)
          (simp_all add: block_defs, (use d in \<open>auto simp: block_defs\<close>)?)
    next
      case 5
      with d show ?thesis
        by (cases "action = ''1''"; cases "action = ''2''"; cases another; cases pwo)
          (simp_all add: block_defs, (use d in \<open>auto simp: block_defs\<close>)?)
    qed
  qed
  with b show ?thesis by blast
qed




lemma valid_block_unsuccessful:
  assumes "valid_block platform action q pwo another b"
  shows "\<forall>s\<in>set b. unsuccessful s \<longrightarrow> failed s \<or> (is_init s \<and> platform = ''tsubasa'')"
proof -
  from assms obtain d where d: "delays another d"
    and b: "b \<in> set (blocks platform action q pwo d)"
    unfolding valid_block_def by blast
  have "\<forall>b\<in>set (blocks platform action q pwo d). \<forall>s\<in>set b. unsuccessful s \<longrightarrow> failed s \<or> (is_init s \<and> platform = ''tsubasa'')"
  proof -
    consider "platform = ''paws''" | "platform = ''tsubasa''" | "platform = ''yescoin''"
      | "platform = ''blum''"
      | "platform \<noteq> ''paws''" "platform \<noteq> ''tsubasa''" "platform \<noteq> ''yescoin''" "platform \<noteq> ''blum''"
      by blast
    then show ?thesis
    proof cases
      case 1
      with d show ?thesis
        by (cases "action = ''1''"; cases "action = ''2''"; cases another; cases pwo)
          (simp_all add: block_defs, (use d in \<open>auto simp: block_defs\<close>)?)
    next
      case 2
      with d show ?thesis
        by (cases "action = ''1''"; cases "action = ''2''"; cases another; cases pwo)
          (simp_all add: block_defs, (use d in \<open>auto simp: block_defs\<close>)?)
    next
      case 3
      with d show ?thesis
        by (cases "action = ''1''"; cases "action = ''2''"; cases another; cases pwo)
          (simp_all add: block_defs, (use d in \<open>auto simp: block_defs\<close>)?)
    next
      case 4
      with d show ?thesis
        by (cases "action = ''1''"; cases "action = ''2''"; cases another; cases pwo)
          (simp_all add: block_defs, (use d in \<open>auto simp: block_defs\<close>)?)
    next
      case 5
      with d show ?thesis
        by (cases "action = ''1''"; cases "action = ''2''"; cases another; cases pwo)
          (simp_all add: block_defs, (use d in \<open>auto simp: block_defs\<close>)?)
    qed
  qed
  with b show ?thesis by blast
qed


subsection \<open>The steps of an account in a run\<close>

lemma run_blocks:
  assumes "processWallets env lib action queryIds walletData version platform w = Inr r"
  shows "run_inv lib version walletData platform action queryIds (length queryIds) r"
  using assms by (intro run_inv_final [where w = w and env = env])
    (simp add: processWallets_def split: if_splits)

lemma run_steps:
  assumes "processWallets env lib action queryIds walletData version platform w = Inr r"
  shows "sorted (map fst (trace r))"
    and "i < length queryIds \<Longrightarrow>
           valid_block platform action (queryIds ! i)
             (wallet_for lib version platform (nth_opt walletData i))
             (i < length queryIds - 1) (steps_of i (trace r))"
    and "length queryIds \<le> i \<Longrightarrow> steps_of i (trace r) = []"
proof -
  from run_blocks [OF assms] obtain B where B: "trace r = laid_out B (length queryIds)"
    "\<forall>j<length queryIds. valid_block platform action (queryIds ! j)
        (wallet_for lib version platform (nth_opt walletData j)) (j < length queryIds - 1) (B j)"
    unfolding run_inv_def by blast
  show "sorted (map fst (trace r))"
    by (simp add: B(1) sorted_laid_out)
  show "valid_block platform action (queryIds ! i)
      (wallet_for lib version platform (nth_opt walletData i))
      (i < length queryIds - 1) (steps_of i (trace r))"
    if "i < length queryIds"
    using that B by (simp add: steps_of_laid_out)
  show "steps_of i (trace r) = []" if "length queryIds \<le> i"
    using that B by (simp add: steps_of_laid_out)
qed

lemma count_one:
  assumes "sorted_wrt (<) (map (f :: 'a \<Rightarrow> nat) xs)" and "\<And>x y. P x \<Longrightarrow> P y \<Longrightarrow> f x = f y"
  shows "length (filter P xs) \<le> 1"
  using assms
proof (induction xs)
  case Nil
  then show ?case by simp
next
  case (Cons x xs)
  have tl: "sorted_wrt (<) (map f xs)"
    using Cons.prems(1) by simp
  have IH: "length (filter P xs) \<le> 1"
    by (rule Cons.IH [OF tl Cons.prems(2)])
  show ?case
  proof (cases "P x")
    case True
    have "filter P xs = []"
    proof (rule ccontr)
      assume "filter P xs \<noteq> []"
      then obtain y where y: "y \<in> set xs" "P y"
        by (auto simp: filter_empty_conv)
      from Cons.prems(1) y(1) have "f x < f y" by simp
      moreover from Cons.prems(2) [OF True y(2)] have "f x = f y" .
      ultimately show False by simp
    qed
    with True show ?thesis by simp
  next
    case False
    with IH show ?thesis by simp
  qed
qed

lemma calls_kind: "calls m s \<Longrightarrow> \<exists>svc m' r. s = Called svc m' r \<and> kind m' = kind m"
  by (cases s) simp_all

lemma kind_rank: "kind m = kind m' \<Longrightarrow> rank (Called svc m r) = rank (Called svc' m' r')"
  by (cases m; cases m') simp_all

lemma calls_rank: "calls m s \<Longrightarrow> calls m s' \<Longrightarrow> rank s = rank s'"
  by (metis calls_kind kind_rank)

subsection \<open>The runs on the stand-ins\<close>

text \<open>
  Two delays: for \<open>Math.random() = 0.5\<close> the product is exact; for
  \<open>Math.random() = 8867657437201276 / 2^53\<close> the exact product lies below 1970 and the
  double nearest to it is 1970.
\<close>

lemma excess_half: "excess 9011702854368362496 = 10"
  by (simp add: excess.simps)

lemma round53_half: "round53 9011702854368362496 = 9011702854368362496"
  by (simp add: round53_def excess_half Let_def)

lemma delay_ms_half: "delay_ms 4503599627370496 = 2000"
  by (simp add: delay_ms_def mathRandom_def round53_half)

lemma excess_rounded: "excess 17744182531839753276 = 11"
  by (simp add: excess.simps)

lemma round53_rounded: "round53 17744182531839753276 = 17744182531839754240"
  by (simp add: round53_def excess_rounded Let_def)

lemma delay_ms_rounded: "delay_ms 8867657437201276 = 2970"
  by (simp add: delay_ms_def mathRandom_def round53_rounded)

lemma exact_product_floor: "8867657437201276 * (3000 - 1000 + 1) div 2 ^ 53 = (1969 :: nat)"
  by simp

lemma seed_entry_wallet:
  "processWalletData stub_ton (Some seed_entry) (Some ''v4'') = Inr seed_wallet"
  by (simp add: processWalletData_def processWalletData_try_def getWalletAddressFromSeed_def
      getWalletAddressFromSeed_try_def external_def seed_entry_def seed24_def trim_def is_ws_def
      stub_ton_def toLowerCase_def lower_char_def toHex_example DEFAULT_WALLET_ID_def Let_def
      seed_wallet_def)

lemmas run_defs = processWallets_def iteration_def setup_paws_def setup_seed_def perform_def
  delay_def bind_flow_def invoke_def constructing_def emit_def countFail_def countSuccess_def
  nth_opt_def stub_env_def refusing_env_def rejecting_env_def Let_def

lemma run_blum:
  "processWallets stub_env stub_ton ''1'' [''expired'', ''fresh'', ''fresh'']
     [seed_entry, seed_entry, seed_entry] (Some ''v4'') ''blum'' 0 = Inr blum_result"
  by (simp add: run_defs for_loop.simps seed_entry_wallet delay_ms_half
      blum_result_def blum_trace_def)

lemma run_connect:
  "processWallets stub_env stub_ton ''1'' [''fresh''] [seed_entry] (Some ''v4'') ''tsubasa'' 0 =
     Inr connect_result"
  by (simp add: run_defs for_loop.simps seed_entry_wallet connect_result_def connect_trace_def)

lemma run_disconnect:
  "processWallets stub_env stub_ton ''2'' [''fresh''] [seed_entry] (Some ''v4'') ''tsubasa'' 0 =
     Inr disconnect_result"
  by (simp add: run_defs for_loop.simps seed_entry_wallet disconnect_result_def
      disconnect_trace_def)

lemma run_refused:
  "processWallets refusing_env stub_ton ''1'' [''fresh''] [seed_entry] (Some ''v4'') ''tsubasa'' 0 =
     Inr refused_result"
  by (simp add: run_defs for_loop.simps seed_entry_wallet refused_result_def refused_trace_def)


text \<open>
  On Blum, when the promise of the initialisation is rejected, nothing catches it: the
  account is not counted as failed, and the run does not return.
\<close>

lemma run_rejected:
  "processWallets rejecting_env stub_ton ''1'' [''fresh''] [seed_entry] (Some ''v4'') ''blum'' 0 =
     Inl (UnhandledRejection ''init failed'')"
  by (simp add: run_defs for_loop.simps seed_entry_wallet)

lemma trace_blum_result: "trace blum_result = blum_trace"
  by (simp add: blum_result_def)

lemma trace_connect_result: "trace connect_result = connect_trace"
  by (simp add: connect_result_def)

lemma trace_disconnect_result: "trace disconnect_result = disconnect_trace"
  by (simp add: disconnect_result_def)

lemma trace_refused_result: "trace refused_result = refused_trace"
  by (simp add: refused_result_def)


subsection \<open>The claims about the batch\<close>

text \<open>
  C3, as the code has it: for every account the steps of a run come in the order
  constructor, login or token acquisition, initialisation, selected action (connect,
  disconnect or display), balance query, counting, delay, each at most once.  When the
  action is reached, the initialisation has returned before it, and on every platform
  but Tsubasa a login or token acquisition has given a token before that.  On Tsubasa
  there is no login and no token acquisition: the service is initialised with the query
  id itself.  When the login or token acquisition gives no token, the account is counted
  as failed, and neither the initialisation nor the action happens.
\<close>

theorem processWallets_step_order:
  assumes "processWallets env lib action queryIds walletData version platform w = Inr r"
  shows "sorted_wrt (<) (map rank (steps_of i (trace r)))
       \<and> ((\<exists>s\<in>set (steps_of i (trace r)). is_operation s) \<longrightarrow>
            (\<exists>s\<in>set (steps_of i (trace r)). initialised s) \<and>
            (platform \<noteq> ''tsubasa'' \<longrightarrow> (\<exists>s\<in>set (steps_of i (trace r)). token_obtained s)))
       \<and> (platform = ''tsubasa'' \<longrightarrow> (\<forall>s\<in>set (steps_of i (trace r)). \<not> is_login s))
       \<and> ((\<exists>s\<in>set (steps_of i (trace r)). no_token s) \<longrightarrow>
            Counted Failure \<in> set (steps_of i (trace r)) \<and>
            Counted Success \<notin> set (steps_of i (trace r)) \<and>
            (\<forall>s\<in>set (steps_of i (trace r)). \<not> is_init s \<and> \<not> is_operation s))"
proof (cases "i < length queryIds")
  case True
  note vb = run_steps(2) [OF assms True]
  from valid_block_ranks [OF vb] valid_block_order [OF vb]
  show ?thesis by simp
next
  case False
  with run_steps(3) [OF assms, of i] show ?thesis by simp
qed

theorem processWallets_step_order_witness:
  "sorted_wrt (<) (map rank (steps_of 1 blum_trace)) \<and>
   no_token (Called BlumService (GetNewToken ''expired'') Falsy) \<and>
   Counted Failure \<in> set (steps_of 0 blum_trace) \<and>
   Counted Success \<notin> set (steps_of 0 blum_trace) \<and>
   filter is_init (steps_of 0 blum_trace) = [] \<and>
   filter is_operation (steps_of 0 blum_trace) = [] \<and>
   (\<exists>s\<in>set (steps_of 1 blum_trace). is_operation s) \<and>
   (\<exists>s\<in>set (steps_of 1 blum_trace). token_obtained s) \<and>
   filter is_login (steps_of 0 connect_trace) = []"
proof -
  have no: "\<exists>s\<in>set (steps_of 0 blum_trace). no_token s"
    by (simp add: steps_of_def blum_trace_def)
  have op: "\<exists>s\<in>set (steps_of 1 blum_trace). is_operation s"
    by (simp add: steps_of_def blum_trace_def)
  from processWallets_step_order [OF run_blum, of 0] no
    processWallets_step_order [OF run_blum, of 1] op
    processWallets_step_order [OF run_connect, of 0]
  show ?thesis
    by (simp add: trace_blum_result trace_connect_result filter_empty_conv)
qed

text \<open>
  C3 as it is written asks for a login or token acquisition before the initialisation on
  every platform.  Connecting one account on Tsubasa reaches the action, and succeeds,
  without any login or token acquisition.
\<close>

theorem tsubasa_connects_without_login:
  "processWallets stub_env stub_ton ''1'' [''fresh''] [seed_entry] (Some ''v4'') ''tsubasa'' 0 =
     Inr connect_result \<and>
   steps_of 0 (trace connect_result) =
     [Processing, Called TsubasaService New Truthy,
      Called TsubasaService (Init (WithQueryId ''fresh'') seed_wallet) Truthy,
      Called TsubasaService ConnectWallet Truthy, Counted Success] \<and>
   filter is_operation (steps_of 0 (trace connect_result)) =
     [Called TsubasaService ConnectWallet Truthy] \<and>
   filter is_login (steps_of 0 (trace connect_result)) = []"
  by (simp add: run_connect trace_connect_result connect_trace_def steps_of_def)



text \<open>
  C5 fails on the code: the delay is the last statement of the \<open>try\<close> block, which a
  \<open>continue\<close> or a thrown error leaves early.  In the run on Blum the first account gets
  no token and the second follows it with no delay; the only delay of the run is after
  the second account.
\<close>

theorem no_delay_after_failed_account:
  "processWallets stub_env stub_ton ''1'' [''expired'', ''fresh'', ''fresh'']
     [seed_entry, seed_entry, seed_entry] (Some ''v4'') ''blum'' 0 = Inr blum_result \<and>
   steps_of 0 (trace blum_result) =
     [Processing, Called BlumService New Truthy,
      Called BlumService (GetNewToken ''expired'') Falsy, Counted Failure] \<and>
   filter is_slept (steps_of 0 (trace blum_result)) = [] \<and>
   filter is_slept (steps_of 1 (trace blum_result)) = [Slept 2000] \<and>
   filter is_slept (steps_of 2 (trace blum_result)) = []"
  by (simp add: run_blum trace_blum_result blum_trace_def steps_of_def)

text \<open>
  What holds of the delays: a delay is the last step of its account, it is between 1000
  and 3000 milliseconds, and the last account has none.
\<close>

lemma processWallets_delays:
  assumes "processWallets env lib action queryIds walletData version platform w = Inr r"
    and "Slept ms \<in> set (steps_of i (trace r))"
  shows "i < length queryIds - 1 \<and> 1000 \<le> ms \<and> ms \<le> 3000 \<and>
         last (steps_of i (trace r)) = Slept ms"
proof (cases "i < length queryIds")
  case True
  from valid_block_slept [OF run_steps(2) [OF assms(1) True]] assms(2)
  show ?thesis by simp
next
  case False
  with run_steps(3) [OF assms(1), of i] assms(2) show ?thesis by simp
qed

text \<open>
  C6 as it is written counts every account with a failed operation as failed.  The
  result of the initialisation is tested on PAWS only.  Connecting one account on
  Tsubasa when the initialisation returns \<open>false\<close>: the account goes on to connect and
  is counted as succeeded.
\<close>

theorem refused_initialisation_counted_as_success:
  "processWallets refusing_env stub_ton ''1'' [''fresh''] [seed_entry] (Some ''v4'') ''tsubasa'' 0 =
     Inr refused_result \<and>
   steps_of 0 (trace refused_result) =
     [Processing, Called TsubasaService New Truthy,
      Called TsubasaService (Init (WithQueryId ''fresh'') seed_wallet) Falsy,
      Called TsubasaService ConnectWallet Truthy, Counted Success] \<and>
   filter unsuccessful (steps_of 0 (trace refused_result)) =
     [Called TsubasaService (Init (WithQueryId ''fresh'') seed_wallet) Falsy] \<and>
   successCount refused_result = 1 \<and> failCount refused_result = 0"
  by (simp add: run_refused refused_result_def refused_trace_def steps_of_def)

text \<open>
  C6, as the code has it: in a run that returns, every method of a service is called at
  most once for an account.  When a call has failed as far as the code finds out (it
  threw, it gave no token, connecting or disconnecting returned a falsy value, or on
  PAWS the initialisation did), the account is counted as failed and not as succeeded,
  and no call of a later step is made for it: what follows is the counting and, after a
  refused connect or disconnect, the delay.  The only call that does not succeed and is
  not taken as a failure is an initialisation on Tsubasa that returns a falsy value.  On
  YesCoin and Blum the code does not wait for the initialisation and never sees how it
  ends.
\<close>

theorem processWallets_no_retry:
  assumes "processWallets env lib action queryIds walletData version platform w = Inr r"
  shows "(\<forall>m. length (filter (calls m) (steps_of i (trace r))) \<le> 1)
       \<and> (\<forall>s\<in>set (steps_of i (trace r)). failed s \<longrightarrow>
            Counted Failure \<in> set (steps_of i (trace r)) \<and>
            Counted Success \<notin> set (steps_of i (trace r)) \<and>
            (\<forall>s'\<in>set (steps_of i (trace r)). rank s' \<le> rank s \<or> 6 \<le> rank s'))
       \<and> (\<forall>s\<in>set (steps_of i (trace r)). unsuccessful s \<longrightarrow>
            failed s \<or> (is_init s \<and> platform = ''tsubasa''))"
proof (cases "i < length queryIds")
  case True
  note vb = run_steps(2) [OF assms True]
  have "length (filter (calls m) (steps_of i (trace r))) \<le> 1" for m
    by (rule count_one [OF valid_block_ranks [OF vb]]) (rule calls_rank)
  with valid_block_failed [OF vb] valid_block_unsuccessful [OF vb] show ?thesis by simp
next
  case False
  with run_steps(3) [OF assms, of i] show ?thesis by simp
qed

theorem processWallets_no_retry_witness:
  "length (filter (calls DisconnectWallet) (steps_of 0 disconnect_trace)) \<le> 1 \<and>
   Called TsubasaService DisconnectWallet Threw \<in> set (steps_of 0 disconnect_trace) \<and>
   failed (Called TsubasaService DisconnectWallet Threw) \<and>
   Counted Failure \<in> set (steps_of 0 disconnect_trace) \<and>
   Counted Success \<notin> set (steps_of 0 disconnect_trace)"
proof -
  have f: "Called TsubasaService DisconnectWallet Threw \<in> set (steps_of 0 disconnect_trace)"
    by (simp add: steps_of_def disconnect_trace_def)
  from processWallets_no_retry [OF run_disconnect, of 0] f
  show ?thesis
    by (simp add: trace_disconnect_result)
qed




text \<open>
  C8: when the action is not \<open>1\<close> or the platform is not \<open>blum\<close>, the balance returned is
  0.  A balance other than 0 needs a balance query that returned a value; such a query
  is made only with action \<open>1\<close> on \<open>blum\<close>, on the Blum service, after a connect that
  succeeded, for an account counted as succeeded.  An iteration that changes the balance
  is of that kind; no other changes it.
\<close>

theorem processWallets_totalBalance:
  assumes "processWallets env lib action queryIds walletData version platform w = Inr r"
  shows "(action \<noteq> ''1'' \<or> platform \<noteq> ''blum'' \<longrightarrow> totalBalance r = 0)
       \<and> (totalBalance r \<noteq> 0 \<longrightarrow>
            (\<exists>i<length queryIds. Called BlumService GetBalance Truthy \<in> set (steps_of i (trace r))))
       \<and> (\<forall>i svc. Called svc GetBalance Truthy \<in> set (steps_of i (trace r)) \<longrightarrow>
            action = ''1'' \<and> platform = ''blum'' \<and> svc = BlumService \<and>
            Called BlumService ConnectWallet Truthy \<in> set (steps_of i (trace r)) \<and>
            Counted Success \<in> set (steps_of i (trace r)))
       \<and> (\<forall>i st st'.
            iteration env lib action queryIds walletData version platform i st = Inr st' \<and>
            totalBalance st' \<noteq> totalBalance st \<longrightarrow>
            action = ''1'' \<and> platform = ''blum'' \<and> successCount st' = successCount st + 1)"
proof -
  let ?n = "length queryIds"
  have bal: "action = ''1'' \<and> platform = ''blum'' \<and> svc = BlumService \<and>
      Called BlumService ConnectWallet Truthy \<in> set (steps_of i (trace r)) \<and>
      Counted Success \<in> set (steps_of i (trace r))"
    if "Called svc GetBalance Truthy \<in> set (steps_of i (trace r))" for i svc
  proof (cases "i < ?n")
    case True
    from valid_block_balance [OF run_steps(2) [OF assms True]] that show ?thesis by simp
  next
    case False
    with run_steps(3) [OF assms, of i] that show ?thesis by simp
  qed
  from run_blocks [OF assms] obtain B where B: "trace r = laid_out B ?n"
    "totalBalance r \<noteq> 0 \<longrightarrow> (\<exists>j<?n. \<exists>svc. Called svc GetBalance Truthy \<in> set (B j))"
    unfolding run_inv_def by blast
  have nz: "\<exists>i<?n. Called BlumService GetBalance Truthy \<in> set (steps_of i (trace r))"
    if "totalBalance r \<noteq> 0"
  proof -
    from B(2) that obtain j svc where j: "j < ?n" "Called svc GetBalance Truthy \<in> set (B j)"
      by blast
    then have in_steps: "Called svc GetBalance Truthy \<in> set (steps_of j (trace r))"
      by (simp add: B(1) steps_of_laid_out)
    from bal [OF in_steps] have "svc = BlumService" by simp
    with in_steps j(1) show ?thesis by blast
  qed
  have zero: "totalBalance r = 0" if "action \<noteq> ''1'' \<or> platform \<noteq> ''blum''"
  proof (rule ccontr)
    assume "totalBalance r \<noteq> 0"
    from nz [OF this] obtain i where "Called BlumService GetBalance Truthy \<in> set (steps_of i (trace r))"
      by blast
    from bal [OF this] that show False by simp
  qed
  have frame: "action = ''1'' \<and> platform = ''blum'' \<and> successCount st' = successCount st + 1"
    if it: "iteration env lib action queryIds walletData version platform i st = Inr st'"
      and ch: "totalBalance st' \<noteq> totalBalance st" for i st st'
  proof -
    from iteration_block [OF it]
    obtain b where b: "valid_block platform action (queryIds ! i)
        (wallet_for lib version platform (nth_opt walletData i)) (i < ?n - 1) b"
      "grown i st st' b"
      unfolding block_of_def by blast
    from b(2) ch obtain svc where g: "Called svc GetBalance Truthy \<in> set b"
      by (auto simp: grown_def)
    from valid_block_balance [OF b(1)] g
    have ab: "action = ''1''" "platform = ''blum''" "Counted Success \<in> set b" by simp_all
    from ab(3) have "count_list b (Counted Success) \<noteq> 0"
      by (simp add: count_list_0_iff)
    with valid_block_counted [OF b(1)] have "count_list b (Counted Success) = 1" by simp
    with b(2) have "successCount st' = successCount st + 1"
      by (simp add: grown_def)
    with ab show ?thesis by simp
  qed
  from zero nz bal frame show ?thesis by blast
qed

theorem processWallets_totalBalance_witness:
  "''tsubasa'' \<noteq> ''blum'' \<and> totalBalance connect_result = 0 \<and>
   totalBalance blum_result \<noteq> 0 \<and>
   (\<exists>i<length [''expired'', ''fresh'', ''fresh''].
      Called BlumService GetBalance Truthy \<in> set (steps_of i blum_trace)) \<and>
   Called BlumService ConnectWallet Truthy \<in> set (steps_of 1 blum_trace)"
proof -
  note B = processWallets_totalBalance [OF run_blum, unfolded trace_blum_result]
  note C = processWallets_totalBalance [OF run_connect]
  have h: "''tsubasa'' \<noteq> ''blum''"
    by simp
  have nz: "totalBalance blum_result \<noteq> 0"
    by (simp add: blum_result_def)
  have g: "Called BlumService GetBalance Truthy \<in> set (steps_of 1 blum_trace)"
    by (simp add: steps_of_def blum_trace_def)
  from C h have z: "totalBalance connect_result = 0"
    by blast
  from B nz have e: "\<exists>i<length [''expired'', ''fresh'', ''fresh''].
      Called BlumService GetBalance Truthy \<in> set (steps_of i blum_trace)"
    by blast
  from B g have c: "Called BlumService ConnectWallet Truthy \<in> set (steps_of 1 blum_trace)"
    by blast
  from h z nz e c show ?thesis by blast
qed

end
